theory Spec2Isabelle
  imports Main "HOL-Library.Word" "HOL-Library.Multiset"
begin

unbundle bit_operations_syntax

section \<open>Strings and the Go library functions the code calls\<close>

text \<open>
  A Go string is a sequence of bytes, as a HOL \<open>string\<close> is. The functions below are
  the ones of Go's \<open>strings\<close> and \<open>strconv\<close> packages that the release service calls on
  version strings; they work on bytes, so they are written out here.
\<close>

text \<open>\<open>strings.Split(s, sep)\<close> for a separator of one byte: every occurrence of the
  separator ends a component, and the empty string gives one empty component.\<close>

fun Split :: "string \<Rightarrow> char \<Rightarrow> string list" where
  "Split [] sep = [[]]"
| "Split (c # cs) sep =
     (if c = sep then [] # Split cs sep
      else (case Split cs sep of
              [] \<Rightarrow> [[c]]
            | p # ps \<Rightarrow> (c # p) # ps))"

text \<open>\<open>strings.SplitN(s, sep, n)\<close> for \<open>n \<ge> 0\<close>: at most \<open>n\<close> components, the last
  one being the unsplit remainder; \<open>n = 0\<close> gives no component at all.\<close>

fun SplitN :: "string \<Rightarrow> char \<Rightarrow> nat \<Rightarrow> string list" where
  "SplitN s sep 0 = []"
| "SplitN s sep (Suc 0) = [s]"
| "SplitN s sep (Suc (Suc n)) =
     (if sep \<in> set s
      then takeWhile (\<lambda>c. c \<noteq> sep) s # SplitN (tl (dropWhile (\<lambda>c. c \<noteq> sep) s)) sep (Suc n)
      else [s])"

definition is_digit :: "char \<Rightarrow> bool" where
  "is_digit c \<longleftrightarrow> (48::nat) \<le> of_char c \<and> (of_char c :: nat) \<le> 57"

text \<open>The value of a string of decimal digits, most significant digit first.\<close>

fun digits_value :: "nat \<Rightarrow> string \<Rightarrow> nat" where
  "digits_value n [] = n"
| "digits_value n (c # cs) = digits_value (n * 10 + (of_char c - 48)) cs"

datatype NumError = ErrSyntax | ErrRange

text \<open>
  \<open>strconv.Atoi\<close>: an optional sign \<open>+\<close> or \<open>-\<close>, then one or more decimal digits and
  nothing else; the value has to fit Go's \<open>int\<close>, which is 64 bits wide on the platforms
  the server is built for.
\<close>

definition Atoi :: "string \<Rightarrow> NumError + int" where
  "Atoi s =
     (let neg = (s \<noteq> [] \<and> hd s = CHR ''-'');
          ds = (if s \<noteq> [] \<and> (hd s = CHR ''-'' \<or> hd s = CHR ''+'') then tl s else s)
      in if ds = [] \<or> \<not> list_all is_digit ds then Inl ErrSyntax
         else let n = int (digits_value 0 ds);
                  v = (if neg then - n else n)
              in if v < - (2 ^ 63) \<or> 2 ^ 63 - 1 < v then Inl ErrRange else Inr v)"

section \<open>Versions (service.go)\<close>

record Version =
  Major :: int
  Minor :: int
  Patch :: int
  Original :: string

datatype ParseError =
    InvalidFormat string
  | InvalidMajor NumError
  | InvalidMinor NumError
  | InvalidPatch NumError

definition parseVersion :: "string \<Rightarrow> ParseError + Version" where
  "parseVersion versionStr =
     (let parts = SplitN versionStr CHR ''.'' 3 in
      if length parts \<noteq> 3 then Inl (InvalidFormat versionStr)
      else case Atoi (parts ! 0) of
             Inl err \<Rightarrow> Inl (InvalidMajor err)
           | Inr major \<Rightarrow>
               (case Atoi (parts ! 1) of
                  Inl err \<Rightarrow> Inl (InvalidMinor err)
                | Inr minor \<Rightarrow>
                    (case Atoi (parts ! 2) of
                       Inl err \<Rightarrow> Inl (InvalidPatch err)
                     | Inr patch \<Rightarrow>
                         Inr \<lparr>Major = major, Minor = minor, Patch = patch,
                              Original = versionStr\<rparr>)))"

text \<open>The zero value \<open>Version{}\<close>, which \<open>parseVersion\<close> returns beside an error.\<close>

definition zeroVersion :: Version where
  "zeroVersion = \<lparr>Major = 0, Minor = 0, Patch = 0, Original = []\<rparr>"

definition GreaterThan :: "Version \<Rightarrow> Version \<Rightarrow> bool" where
  "GreaterThan v other =
     (if Major v > Major other then True
      else if Major v < Major other then False
      else if Minor v > Minor other then True
      else if Minor v < Minor other then False
      else Patch v > Patch other)"

text \<open>What the specification calls an integer component, as \<open>strconv.Atoi\<close> accepts it:
  an optional sign, then decimal digits, with a value that fits 64 bits.\<close>
definition signed_decimal :: "string \<Rightarrow> bool" where
  "signed_decimal s \<longleftrightarrow>
     (\<exists>sgn ds. s = sgn @ ds \<and> (sgn = [] \<or> sgn = ''+'' \<or> sgn = ''-'') \<and>
        ds \<noteq> [] \<and> list_all is_digit ds \<and>
        (if sgn = ''-'' then digits_value 0 ds \<le> 2 ^ 63 else digits_value 0 ds < 2 ^ 63))"

definition three_components :: "string \<Rightarrow> bool" where
  "three_components s \<longleftrightarrow>
     (\<exists>x y z. s = x @ ''.'' @ y @ ''.'' @ z \<and>
        signed_decimal x \<and> signed_decimal y \<and> signed_decimal z)"

text \<open>The specification's wording of a well-formed version: exactly three components
  between dots, each a non-negative base-10 integer, that is a non-empty run of digits.\<close>

definition spec_well_formed :: "string \<Rightarrow> bool" where
  "spec_well_formed s \<longleftrightarrow>
     (let parts = Split s CHR ''.'' in
      length parts = 3 \<and> list_all (\<lambda>p. p \<noteq> [] \<and> list_all is_digit p) parts)"

section \<open>Release metadata (model.go)\<close>

text \<open>A \<open>time.Time\<close> is kept as a number; the code only copies it.\<close>

type_synonym time = int

record ReleaseMetadata =
  ID :: string
  SoftwareName :: string
  Version :: string
  ReleaseTimestamp :: time
  FileSize :: int
  ReleaseState :: string
  Changelog :: string
  ReleaseDate :: time

section \<open>Path derivation (repository.go)\<close>

text \<open>
  Three functions of Go's library work on Unicode code points or on the platform's path
  syntax and are taken as they come, as parameters of the model: \<open>strings.ToLower\<close>, the
  decoding of a string into its runes (what \<open>for _, char := range s\<close> visits, and what the
  width of \<open>%02s\<close> counts), and \<open>filepath.Join\<close> of two elements.
\<close>

record golib =
  ToLower :: "string \<Rightarrow> string"
  runes :: "string \<Rightarrow> int list"
  Join :: "string \<Rightarrow> string \<Rightarrow> string"

text \<open>What these functions do on ASCII strings and on paths without special elements,
  for evaluating the model on such inputs.\<close>

definition ascii_lower :: "char \<Rightarrow> char" where
  "ascii_lower c =
     (if (65::nat) \<le> of_char c \<and> (of_char c :: nat) \<le> 90 then char_of (of_char c + (32::nat)) else c)"

definition ascii_lib :: golib where
  "ascii_lib = \<lparr>ToLower = map ascii_lower,
                 runes = map of_char,
                 Join = (\<lambda>a b. a @ ''/'' @ b)\<rparr>"

text \<open>\<open>generateSoftwareIDFromName\<close>: Go's \<open>int\<close> is a 64-bit word whose arithmetic wraps
  around; the mask leaves a value from 0 to \<open>0xFFFFF\<close>.\<close>

definition generateSoftwareIDFromName :: "golib \<Rightarrow> string \<Rightarrow> int" where
  "generateSoftwareIDFromName lib softwareName =
     sint (foldl (\<lambda>hash char. hash * 31 + word_of_int char) (0 :: 64 word) (runes lib softwareName)
           AND 0xFFFFF)"

text \<open>\<open>strings.ReplaceAll(strings.ToLower(filename), " ", "_")\<close>.\<close>

definition sanitizeFilename :: "golib \<Rightarrow> string \<Rightarrow> string" where
  "sanitizeFilename lib filename =
     map (\<lambda>c. if c = CHR '' '' then CHR ''_'' else c) (ToLower lib filename)"

text \<open>The decimal digits of a natural number.\<close>

definition digit_char :: "nat \<Rightarrow> char" where
  "digit_char d =
     (if d = 0 then CHR ''0'' else if d = 1 then CHR ''1'' else if d = 2 then CHR ''2''
      else if d = 3 then CHR ''3'' else if d = 4 then CHR ''4'' else if d = 5 then CHR ''5''
      else if d = 6 then CHR ''6'' else if d = 7 then CHR ''7'' else if d = 8 then CHR ''8''
      else CHR ''9'')"

fun decimal :: "nat \<Rightarrow> string" where
  "decimal n =
     (if n < 10 then [digit_char n]
      else decimal (n div 10) @ [digit_char (n mod 10)])"

declare decimal.simps [simp del]

text \<open>The verb \<open>%06d\<close> of \<open>fmt.Sprintf\<close>: the decimal digits, filled with zeros on the left
  to six characters at least, after the sign when there is one.\<close>

definition fmt_06d :: "int \<Rightarrow> string" where
  "fmt_06d n =
     (if n < 0
      then CHR ''-'' # replicate (5 - length (decimal (nat (- n)))) CHR ''0'' @ decimal (nat (- n))
      else replicate (6 - length (decimal (nat n))) CHR ''0'' @ decimal (nat n))"

text \<open>The verb \<open>%02s\<close>: the string, filled with zeros on the left when it has fewer than
  two runes.\<close>

definition fmt_02s :: "golib \<Rightarrow> string \<Rightarrow> string" where
  "fmt_02s lib s = replicate (2 - length (runes lib s)) CHR ''0'' @ s"

definition getSoftwareDirPath :: "golib \<Rightarrow> string \<Rightarrow> string \<Rightarrow> string" where
  "getSoftwareDirPath lib repoPath softwareName =
     (let softwareID = generateSoftwareIDFromName lib softwareName;
          dirName = fmt_06d softwareID @ ''_'' @ sanitizeFilename lib softwareName
      in Join lib repoPath dirName)"

text \<open>A run-time panic of Go: an index out of range, with the index and the length.\<close>

datatype panic = IndexOutOfRange nat nat

definition index :: "'a list \<Rightarrow> nat \<Rightarrow> panic + 'a" where
  "index xs i = (if i < length xs then Inr (xs ! i) else Inl (IndexOutOfRange i (length xs)))"

text \<open>\<open>getReleaseFilePath\<close>: the arguments of \<open>Sprintf\<close> are evaluated from left to right,
  and the first index beyond the split version panics.\<close>

definition getReleaseFilePath :: "golib \<Rightarrow> string \<Rightarrow> ReleaseMetadata \<Rightarrow> panic + string" where
  "getReleaseFilePath lib repoPath metadata =
     (let softwareDirPath = getSoftwareDirPath lib repoPath (SoftwareName metadata) in
      case index (Split (Version metadata) CHR ''.'') 0 of
        Inl p \<Rightarrow> Inl p
      | Inr v0 \<Rightarrow>
          (case index (Split (Version metadata) CHR ''.'') 1 of
             Inl p \<Rightarrow> Inl p
           | Inr v1 \<Rightarrow>
               (case index (Split (Version metadata) CHR ''.'') 2 of
                  Inl p \<Rightarrow> Inl p
                | Inr v2 \<Rightarrow>
                    (let fileName =
                           fmt_06d (generateSoftwareIDFromName lib (SoftwareName metadata)) @ ''_'' @
                           sanitizeFilename lib (SoftwareName metadata) @ ''_'' @
                           fmt_02s lib v0 @ ''.'' @ fmt_02s lib v1 @ ''.'' @ fmt_02s lib v2 @ ''.tgz''
                     in Inr (Join lib softwareDirPath fileName)))))"

text \<open>The layout of the specification:
  \<open><repoRoot>/<dirPrefix>_<sanitizedName>/<dirPrefix>_<sanitizedName>_<major>.<minor>.<patch>.tgz\<close>,
  with \<open>/\<close> read as \<open>filepath.Join\<close>.\<close>

definition spec_layout :: "golib \<Rightarrow> string \<Rightarrow> string \<Rightarrow> string \<Rightarrow> string \<Rightarrow> string \<Rightarrow> string \<Rightarrow> string" where
  "spec_layout lib repoRoot dirPrefix sanitizedName major minor patch =
     Join lib (Join lib repoRoot (dirPrefix @ ''_'' @ sanitizedName))
       (dirPrefix @ ''_'' @ sanitizedName @ ''_'' @ major @ ''.'' @ minor @ ''.'' @ patch @ ''.tgz'')"

section \<open>The process state: the database in memory, the heap, the file system\<close>

text \<open>
  \<open>db.releases\<close> maps a software name to a map from versions to pointers, and the records
  live on the heap: \<open>ReconcileReleases\<close> writes through the pointers that
  \<open>ListAllReleasesMetadata\<close> hands out, so the store changes under it. The heap is
  therefore explicit, a map from addresses to records.

  The file system below the repository root is a map from paths to nodes. A system call
  fails with \<open>ErrNotExist\<close> where the node is missing, and with another error
  (permission, I/O) on the paths that \<open>deny\<close> lists for that call. The metadata file at
  \<open>db.filepath\<close> is kept apart, as the records it holds.

  \<open>db.mu\<close> is a \<open>sync.RWMutex\<close>, which is not reentrant. A read lock is taken and
  released inside one call, and read locks do not exclude each other, so the state only
  says whether the write lock is held. A call that waits for a lock whose holder never
  releases it does not return: that is the outcome \<open>Blocked\<close>.
\<close>

type_synonym addr = nat

datatype node = RegularFile int | Directory

datatype syscall = SysStat | SysOpen | SysCreate | SysRead | SysWrite | SysRemove | SysMkdir

datatype os_error = ErrNotExist | ErrOther

text \<open>The errors of the core. \<open>Wrap msg err\<close> is \<open>fmt.Errorf(msg + ": %w", ..., err)\<close>, with the format string kept as it is written;
  \<open>PathError\<close> is what the \<open>os\<close> package returns.\<close>

datatype error =
    NotFoundSoftware string
  | NotFoundVersion string string
  | AlreadyExists string string
  | NoReleases string
  | PathError syscall string os_error
  | Wrap string error

text \<open>What the metadata file holds: nothing yet, a file cut short by a failed write, or
  the records of the last complete write. \<open>saveReleasesMetadata\<close> writes the records in
  the order of a map iteration, which Go leaves open; the model keeps each record under
  the key it was stored at and leaves the order out.\<close>

datatype dbcontent =
    NoFile
  | Truncated
  | Records "string \<times> string \<Rightarrow> ReleaseMetadata option"

datatype rwmutex = Unlocked | WriteLocked

record sys =
  filepath :: string
  mu :: rwmutex
  releases :: "string \<Rightarrow> (string \<Rightarrow> addr option) option"
  heap :: "addr \<Rightarrow> ReleaseMetadata"
  dbfile :: dbcontent
  nodes :: "string \<Rightarrow> node option"
  dirsize :: int
  deny :: "syscall \<Rightarrow> string \<Rightarrow> bool"

datatype 'a outcome = Return 'a | Panic panic | Blocked

subsection \<open>The lock\<close>

text \<open>\<open>db.mu.Lock()\<close> and \<open>db.mu.RLock()\<close>: \<open>None\<close> when the caller waits for ever.\<close>

definition Lock :: "sys \<Rightarrow> sys option" where
  "Lock s = (if mu s = WriteLocked then None else Some (s\<lparr>mu := WriteLocked\<rparr>))"

definition Unlock :: "sys \<Rightarrow> sys" where
  "Unlock s = s\<lparr>mu := Unlocked\<rparr>"

definition RLock :: "sys \<Rightarrow> sys option" where
  "RLock s = (if mu s = WriteLocked then None else Some s)"

definition RUnlock :: "sys \<Rightarrow> sys" where
  "RUnlock s = s"

text \<open>\<open>defer db.mu.Unlock()\<close>: the lock is released when the function returns or
  panics, not when it never gets that far.\<close>

definition deferred_Unlock :: "'a outcome \<times> sys \<Rightarrow> 'a outcome \<times> sys" where
  "deferred_Unlock r = (case r of (Blocked, s) \<Rightarrow> (Blocked, s) | (x, s) \<Rightarrow> (x, Unlock s))"

subsection \<open>System calls\<close>

definition os_Stat :: "sys \<Rightarrow> string \<Rightarrow> error + node" where
  "os_Stat s name =
     (if deny s SysStat name then Inl (PathError SysStat name ErrOther)
      else case nodes s name of
             None \<Rightarrow> Inl (PathError SysStat name ErrNotExist)
           | Some n \<Rightarrow> Inr n)"

text \<open>\<open>fileInfo.Size()\<close>; for a directory the value depends on the system.\<close>

definition Size :: "sys \<Rightarrow> node \<Rightarrow> int" where
  "Size s n = (case n of RegularFile sz \<Rightarrow> sz | Directory \<Rightarrow> dirsize s)"

definition os_IsNotExist :: "error \<Rightarrow> bool" where
  "os_IsNotExist err = (case err of PathError c name ErrNotExist \<Rightarrow> True | _ \<Rightarrow> False)"

definition os_MkdirAll :: "sys \<Rightarrow> string \<Rightarrow> error option \<times> sys" where
  "os_MkdirAll s name =
     (if deny s SysMkdir name then (Some (PathError SysMkdir name ErrOther), s)
      else case nodes s name of
             Some Directory \<Rightarrow> (None, s)
           | Some (RegularFile sz) \<Rightarrow> (Some (PathError SysMkdir name ErrOther), s)
           | None \<Rightarrow> (None, s\<lparr>nodes := (nodes s)(name \<mapsto> Directory)\<rparr>))"

definition os_Open :: "sys \<Rightarrow> string \<Rightarrow> error option" where
  "os_Open s name =
     (if deny s SysOpen name then Some (PathError SysOpen name ErrOther)
      else if nodes s name = None then Some (PathError SysOpen name ErrNotExist)
      else None)"

definition os_Create :: "sys \<Rightarrow> string \<Rightarrow> error option \<times> sys" where
  "os_Create s name =
     (if deny s SysCreate name then (Some (PathError SysCreate name ErrOther), s)
      else case nodes s name of
             Some Directory \<Rightarrow> (Some (PathError SysCreate name ErrOther), s)
           | _ \<Rightarrow> (None, s\<lparr>nodes := (nodes s)(name \<mapsto> RegularFile 0)\<rparr>))"

text \<open>\<open>io.Copy(destFile, sourceFile)\<close> on two open files. A copy that fails leaves the
  destination as \<open>os.Create\<close> made it.\<close>

definition io_Copy :: "sys \<Rightarrow> string \<Rightarrow> string \<Rightarrow> error option \<times> sys" where
  "io_Copy s dst src =
     (case nodes s src of
        Some (RegularFile sz) \<Rightarrow>
          if deny s SysRead src then (Some (PathError SysRead src ErrOther), s)
          else if deny s SysWrite dst then (Some (PathError SysWrite dst ErrOther), s)
          else (None, s\<lparr>nodes := (nodes s)(dst \<mapsto> RegularFile sz)\<rparr>)
      | _ \<Rightarrow> (Some (PathError SysRead src ErrOther), s))"

definition os_Remove :: "sys \<Rightarrow> string \<Rightarrow> error option \<times> sys" where
  "os_Remove s name =
     (if deny s SysRemove name then (Some (PathError SysRemove name ErrOther), s)
      else case nodes s name of
             None \<Rightarrow> (Some (PathError SysRemove name ErrNotExist), s)
           | Some n \<Rightarrow> (None, s\<lparr>nodes := (nodes s)(name := None)\<rparr>))"

subsection \<open>The metadata store (repository.go)\<close>

text \<open>Reading \<open>db.releases[name][version]\<close>: a missing software name reads as a nil map,
  which has no entry.\<close>

definition lookup :: "sys \<Rightarrow> string \<times> string \<Rightarrow> addr option" where
  "lookup s k = (case releases s (fst k) of None \<Rightarrow> None | Some inner \<Rightarrow> inner (snd k))"

definition snapshot :: "sys \<Rightarrow> string \<times> string \<Rightarrow> ReleaseMetadata option" where
  "snapshot s k = map_option (heap s) (lookup s k)"

definition saveReleasesMetadata :: "sys \<Rightarrow> error option outcome \<times> sys" where
  "saveReleasesMetadata s =
     (case RLock s of
        None \<Rightarrow> (Blocked, s)
      | Some s1 \<Rightarrow>
          (let releasesSlice = snapshot s1;
               s2 = RUnlock s1
           in if deny s2 SysCreate (filepath s2)
              then (Return (Some (Wrap ''failed to open release metadata database file for writing''
                            (PathError SysCreate (filepath s2) ErrOther))), s2)
              else if deny s2 SysWrite (filepath s2)
              then (Return (Some (Wrap ''failed to encode release metadata database to JSON''
                            (PathError SysWrite (filepath s2) ErrOther))), s2\<lparr>dbfile := Truncated\<rparr>)
              else (Return None, s2\<lparr>dbfile := Records releasesSlice\<rparr>)))"

text \<open>The functions that only read take the read lock and release it on return; the
  state after them is the state before.\<close>

definition GetReleaseMetadata :: "sys \<Rightarrow> string \<Rightarrow> string \<Rightarrow> (error + addr) outcome" where
  "GetReleaseMetadata s softwareName version =
     (case RLock s of
        None \<Rightarrow> Blocked
      | Some s1 \<Rightarrow>
          (case releases s1 softwareName of
             None \<Rightarrow> Return (Inl (NotFoundSoftware softwareName))
           | Some softwareReleases \<Rightarrow>
               (case softwareReleases version of
                  None \<Rightarrow> Return (Inl (NotFoundVersion softwareName version))
                | Some metadata \<Rightarrow> Return (Inr metadata))))"

text \<open>A \<open>for ... range\<close> over a Go map visits every key once, in an order that Go leaves
  open and changes from one loop to the next. The order is an argument of the model:
  \<open>range_values m ks\<close> are the values met when the keys come in the order \<open>ks\<close>, and
  \<open>range_order m ks\<close> says that \<open>ks\<close> is such an order for \<open>m\<close>.\<close>

definition range_values :: "('k \<Rightarrow> 'v option) \<Rightarrow> 'k list \<Rightarrow> 'v list" where
  "range_values m ks = List.map_filter m ks"

definition range_order :: "('k \<Rightarrow> 'v option) \<Rightarrow> 'k list \<Rightarrow> bool" where
  "range_order m ks \<longleftrightarrow> distinct ks \<and> set ks = dom m"

definition ListReleasesMetadataForSoftware ::
  "sys \<Rightarrow> string list \<Rightarrow> string \<Rightarrow> (error + addr list) outcome" where
  "ListReleasesMetadataForSoftware s vs softwareName =
     (case RLock s of
        None \<Rightarrow> Blocked
      | Some s1 \<Rightarrow>
          (case releases s1 softwareName of
             None \<Rightarrow> Return (Inl (NotFoundSoftware softwareName))
           | Some softwareReleases \<Rightarrow> Return (Inr (range_values softwareReleases vs))))"

text \<open>The two nested loops of \<open>ListAllReleasesMetadata\<close>: \<open>ns\<close> orders the software
  names, \<open>vs name\<close> the versions of one name. Its error is always \<open>nil\<close>.\<close>

definition all_releases :: "sys \<Rightarrow> string list \<Rightarrow> (string \<Rightarrow> string list) \<Rightarrow> addr list" where
  "all_releases s ns vs =
     concat (map (\<lambda>name. case releases s name of
                            None \<Rightarrow> []
                          | Some softwareReleases \<Rightarrow> range_values softwareReleases (vs name)) ns)"

definition ListAllReleasesMetadata ::
  "sys \<Rightarrow> string list \<Rightarrow> (string \<Rightarrow> string list) \<Rightarrow> addr list outcome" where
  "ListAllReleasesMetadata s ns vs =
     (case RLock s of
        None \<Rightarrow> Blocked
      | Some s1 \<Rightarrow> Return (all_releases s1 ns vs))"

definition list_order :: "sys \<Rightarrow> string list \<Rightarrow> (string \<Rightarrow> string list) \<Rightarrow> bool" where
  "list_order s ns vs \<longleftrightarrow>
     range_order (releases s) ns \<and>
     (\<forall>name softwareReleases. releases s name = Some softwareReleases \<longrightarrow>
        range_order softwareReleases (vs name))"

text \<open>Writing \<open>db.releases[name][version] = metadata\<close>; the callers have made sure that
  the inner map exists.\<close>

definition put :: "sys \<Rightarrow> string \<Rightarrow> string \<Rightarrow> addr \<Rightarrow> sys" where
  "put s name version metadata =
     (case releases s name of
        None \<Rightarrow> s
      | Some inner \<Rightarrow> s\<lparr>releases := (releases s)(name \<mapsto> inner(version \<mapsto> metadata))\<rparr>)"

definition CreateReleaseMetadata :: "sys \<Rightarrow> addr \<Rightarrow> error option outcome \<times> sys" where
  "CreateReleaseMetadata s metadata =
     (case Lock s of
        None \<Rightarrow> (Blocked, s)
      | Some s0 \<Rightarrow>
          deferred_Unlock
            (let name = SoftwareName (heap s0 metadata);
                 version = Version (heap s0 metadata);
                 s1 = (if releases s0 name = None
                       then s0\<lparr>releases := (releases s0)(name \<mapsto> Map.empty)\<rparr> else s0)
             in if lookup s1 (name, version) \<noteq> None
                then (Return (Some (AlreadyExists name version)), s1)
                else saveReleasesMetadata (put s1 name version metadata)))"

definition UpdateReleaseMetadata :: "sys \<Rightarrow> addr \<Rightarrow> error option outcome \<times> sys" where
  "UpdateReleaseMetadata s metadata =
     (case Lock s of
        None \<Rightarrow> (Blocked, s)
      | Some s0 \<Rightarrow>
          deferred_Unlock
            (let name = SoftwareName (heap s0 metadata);
                 version = Version (heap s0 metadata)
             in if releases s0 name = None then (Return (Some (NotFoundSoftware name)), s0)
                else if lookup s0 (name, version) = None
                then (Return (Some (NotFoundVersion name version)), s0)
                else saveReleasesMetadata (put s0 name version metadata)))"

definition DeleteReleaseMetadata :: "sys \<Rightarrow> string \<Rightarrow> string \<Rightarrow> error option outcome \<times> sys" where
  "DeleteReleaseMetadata s softwareName version =
     (case Lock s of
        None \<Rightarrow> (Blocked, s)
      | Some s0 \<Rightarrow>
          deferred_Unlock
            (case releases s0 softwareName of
               None \<Rightarrow> (Return (Some (NotFoundSoftware softwareName)), s0)
             | Some inner \<Rightarrow>
                 if inner version = None
                 then (Return (Some (NotFoundVersion softwareName version)), s0)
                 else let inner' = inner(version := None);
                          s1 = s0\<lparr>releases := (releases s0)(softwareName \<mapsto> inner')\<rparr>;
                          s2 = (if dom inner' = {}
                                then s1\<lparr>releases := (releases s1)(softwareName := None)\<rparr> else s1)
                      in saveReleasesMetadata s2))"

subsection \<open>Reconciliation\<close>

text \<open>Writing a field through the pointer.\<close>

definition set_ReleaseState :: "sys \<Rightarrow> addr \<Rightarrow> string \<Rightarrow> sys" where
  "set_ReleaseState s metadata st =
     s\<lparr>heap := (heap s)(metadata := (heap s metadata)\<lparr>ReleaseState := st\<rparr>)\<rparr>"

definition set_FileSize :: "sys \<Rightarrow> addr \<Rightarrow> int \<Rightarrow> sys" where
  "set_FileSize s metadata sz =
     s\<lparr>heap := (heap s)(metadata := (heap s metadata)\<lparr>FileSize := sz\<rparr>)\<rparr>"

text \<open>The body of the loop of \<open>ReconcileReleases\<close> for one pointer of the list: \<open>Inl\<close> when
  the function leaves the loop, by a panic or by \<open>return\<close>, \<open>Inr\<close> when the loop goes on.\<close>

definition reconcile_one :: "golib \<Rightarrow> string \<Rightarrow> addr \<Rightarrow> sys \<Rightarrow> (error option outcome \<times> sys) + sys" where
  "reconcile_one lib repoPath metadata s =
     (case getReleaseFilePath lib repoPath (heap s metadata) of
        Inl p \<Rightarrow> Inl (Panic p, s)
      | Inr releaseFilePath \<Rightarrow>
          (case os_Stat s releaseFilePath of
             Inl err \<Rightarrow>
               if os_IsNotExist err
               then (let s1 = set_ReleaseState s metadata ''unavailable'' in
                     case UpdateReleaseMetadata s1 metadata of
                       (Return (Some err), s2) \<Rightarrow>
                         Inl (Return (Some (Wrap ''failed to update metadata during reconciliation for %s %s'' err)), s2)
                     | (Return None, s2) \<Rightarrow> Inr s2
                     | (Panic p, s2) \<Rightarrow> Inl (Panic p, s2)
                     | (Blocked, s2) \<Rightarrow> Inl (Blocked, s2))
               else Inl (Return (Some (Wrap ''error checking release file during reconciliation for %s %s'' err)), s)
           | Inr fi \<Rightarrow>
               (let s1 = set_ReleaseState s metadata ''available'' in
                case os_Stat s1 releaseFilePath of
                  Inl err \<Rightarrow>
                    Inl (Return (Some (Wrap ''failed to stat file during reconciliation for %s %s'' err)), s1)
                | Inr fileInfo \<Rightarrow>
                    if FileSize (heap s1 metadata) \<noteq> Size s1 fileInfo
                    then (let s2 = set_FileSize s1 metadata (Size s1 fileInfo) in
                          case UpdateReleaseMetadata s2 metadata of
                            (Return (Some err), s3) \<Rightarrow>
                              Inl (Return (Some (Wrap ''failed to update file size during reconciliation for %s %s'' err)), s3)
                          | (Return None, s3) \<Rightarrow> Inr s3
                          | (Panic p, s3) \<Rightarrow> Inl (Panic p, s3)
                          | (Blocked, s3) \<Rightarrow> Inl (Blocked, s3))
                    else Inr s1)))"

fun reconcile_loop :: "golib \<Rightarrow> string \<Rightarrow> addr list \<Rightarrow> sys \<Rightarrow> error option outcome \<times> sys" where
  "reconcile_loop lib repoPath [] s = saveReleasesMetadata s"
| "reconcile_loop lib repoPath (metadata # rest) s =
     (case reconcile_one lib repoPath metadata s of
        Inl r \<Rightarrow> r
      | Inr s' \<Rightarrow> reconcile_loop lib repoPath rest s')"

definition ReconcileReleases ::
  "golib \<Rightarrow> string \<Rightarrow> string list \<Rightarrow> (string \<Rightarrow> string list) \<Rightarrow> sys \<Rightarrow> error option outcome \<times> sys" where
  "ReconcileReleases lib repoPath ns vs s =
     (case ListAllReleasesMetadata s ns vs of
        Return allReleasesMetadata \<Rightarrow> reconcile_loop lib repoPath allReleasesMetadata s
      | Panic p \<Rightarrow> (Panic p, s)
      | Blocked \<Rightarrow> (Blocked, s))"

subsection \<open>Storing and reading release files\<close>

definition EnsureReleaseDirExists :: "golib \<Rightarrow> string \<Rightarrow> string \<Rightarrow> sys \<Rightarrow> error option \<times> sys" where
  "EnsureReleaseDirExists lib repoPath softwareName s =
     (let dirPath = getSoftwareDirPath lib repoPath softwareName in
      case os_Stat s dirPath of
        Inl err \<Rightarrow>
          if os_IsNotExist err
          then (case os_MkdirAll s dirPath of
                  (Some err, s') \<Rightarrow> (Some (Wrap ''failed to create software release directory'' err), s')
                | (None, s') \<Rightarrow> (None, s'))
          else (None, s)
      | Inr fi \<Rightarrow> (None, s))"

definition copyFile :: "sys \<Rightarrow> string \<Rightarrow> string \<Rightarrow> error option \<times> sys" where
  "copyFile s sourcePath destPath =
     (case os_Open s sourcePath of
        Some err \<Rightarrow> (Some (Wrap ''failed to open source file'' err), s)
      | None \<Rightarrow>
          (case os_Create s destPath of
             (Some err, s1) \<Rightarrow> (Some (Wrap ''failed to create destination file'' err), s1)
           | (None, s1) \<Rightarrow>
               (case io_Copy s1 destPath sourcePath of
                  (Some err, s2) \<Rightarrow> (Some (Wrap ''failed to copy file'' err), s2)
                | (None, s2) \<Rightarrow> (None, s2))))"

definition StoreReleaseFile ::
  "golib \<Rightarrow> string \<Rightarrow> string \<Rightarrow> addr \<Rightarrow> sys \<Rightarrow> (error + string) outcome \<times> sys" where
  "StoreReleaseFile lib repoPath tgzFilePath metadata s =
     (case EnsureReleaseDirExists lib repoPath (SoftwareName (heap s metadata)) s of
        (Some err, s1) \<Rightarrow> (Return (Inl err), s1)
      | (None, s1) \<Rightarrow>
          (case getReleaseFilePath lib repoPath (heap s1 metadata) of
             Inl p \<Rightarrow> (Panic p, s1)
           | Inr destFilePath \<Rightarrow>
               (case copyFile s1 tgzFilePath destFilePath of
                  (Some err, s2) \<Rightarrow> (Return (Inl (Wrap ''failed to store release file'' err)), s2)
                | (None, s2) \<Rightarrow> (Return (Inr destFilePath), s2))))"

definition GetReleaseTGZReader :: "golib \<Rightarrow> string \<Rightarrow> addr \<Rightarrow> sys \<Rightarrow> (error + string) outcome" where
  "GetReleaseTGZReader lib repoPath metadata s =
     (case getReleaseFilePath lib repoPath (heap s metadata) of
        Inl p \<Rightarrow> Panic p
      | Inr releaseFilePath \<Rightarrow>
          (case os_Open s releaseFilePath of
             Some err \<Rightarrow> Return (Inl (Wrap ''failed to open release file for reading'' err))
           | None \<Rightarrow> Return (Inr releaseFilePath)))"

section \<open>The release service (service.go)\<close>

text \<open>\<open>UploadRelease\<close> takes the metadata by value and passes the address of its copy
  on: \<open>metadata\<close> below is the address of that copy, \<open>md\<close> the record the caller gave,
  \<open>now\<close> the value of \<open>time.Now()\<close>. The result of \<open>os.Remove\<close> is dropped, as in the
  source.\<close>

definition UploadRelease ::
  "golib \<Rightarrow> string \<Rightarrow> time \<Rightarrow> string \<Rightarrow> ReleaseMetadata \<Rightarrow> addr \<Rightarrow> sys \<Rightarrow> error option outcome \<times> sys" where
  "UploadRelease lib repoPath now tgzFilePath md metadata s =
     (let s0 = s\<lparr>heap := (heap s)(metadata := md\<lparr>ReleaseTimestamp := now\<rparr>)\<rparr> in
      case StoreReleaseFile lib repoPath tgzFilePath metadata s0 of
        (Panic p, s1) \<Rightarrow> (Panic p, s1)
      | (Blocked, s1) \<Rightarrow> (Blocked, s1)
      | (Return (Inl err), s1) \<Rightarrow> (Return (Some (Wrap ''failed to store release file'' err)), s1)
      | (Return (Inr destFilePath), s1) \<Rightarrow>
          (case os_Stat s1 destFilePath of
             Inl err \<Rightarrow>
               (Return (Some (Wrap ''failed to get file size after storing release'' err)), s1)
           | Inr fileInfo \<Rightarrow>
               (let s2 = set_ReleaseState (set_FileSize s1 metadata (Size s1 fileInfo)) metadata ''available'' in
                case CreateReleaseMetadata s2 metadata of
                  (Return (Some err), s3) \<Rightarrow>
                    (Return (Some (Wrap ''failed to create release metadata and rollback file storage'' err)),
                     snd (os_Remove s3 destFilePath))
                | (Return None, s3) \<Rightarrow> (Return None, s3)
                | (Panic p, s3) \<Rightarrow> (Panic p, s3)
                | (Blocked, s3) \<Rightarrow> (Blocked, s3))))"

subsection \<open>Listing the releases of a software and finding the latest\<close>

text \<open>\<open>sort.Slice(x, less)\<close> sorts in place and is not stable: of the orders of the
  elements that agree with \<open>less\<close> it may produce any. \<open>sort_Slice lt xs ys\<close> says that
  \<open>ys\<close> is a slice that the call may leave where \<open>xs\<close> was: the same elements, none of
  them before one that is less than it by \<open>lt\<close>.\<close>

definition sort_Slice :: "('a \<Rightarrow> 'a \<Rightarrow> bool) \<Rightarrow> 'a list \<Rightarrow> 'a list \<Rightarrow> bool" where
  "sort_Slice lt xs ys \<longleftrightarrow> mset ys = mset xs \<and> sorted_wrt (\<lambda>a b. \<not> lt b a) ys"

text \<open>\<open>version, _ := parseVersion(releases[i].Version)\<close>: the error is dropped, and with
  an error comes the zero version.\<close>

definition version_of :: "sys \<Rightarrow> addr \<Rightarrow> Version" where
  "version_of s p =
     (case parseVersion (Version (heap s p)) of Inl err \<Rightarrow> zeroVersion | Inr v \<Rightarrow> v)"

text \<open>The function \<open>less\<close> that \<open>ListReleasesForSoftware\<close> gives to \<open>sort.Slice\<close>.\<close>

definition sort_less :: "sys \<Rightarrow> string \<Rightarrow> string \<Rightarrow> addr \<Rightarrow> addr \<Rightarrow> bool" where
  "sort_less s sortField sortOrder i j =
     (if sortField = ''version''
      then (if sortOrder = ''desc''
            then GreaterThan (version_of s i) (version_of s j)
            else GreaterThan (version_of s j) (version_of s i))
      else if sortField = ''date''
      then (if sortOrder = ''desc''
            then ReleaseDate (heap s j) < ReleaseDate (heap s i)
            else ReleaseDate (heap s i) < ReleaseDate (heap s j))
      else GreaterThan (version_of s i) (version_of s j))"

text \<open>The two functions of the service, as relations between the call and what it may
  return; \<open>vs\<close> is the order in which the map of the versions is visited.\<close>

inductive ListReleasesForSoftware ::
  "sys \<Rightarrow> string list \<Rightarrow> string \<Rightarrow> string \<Rightarrow> string \<Rightarrow> (error + addr list) outcome \<Rightarrow> bool"
  for s vs softwareName sortField sortOrder where
    list_blocked:
      "ListReleasesMetadataForSoftware s vs softwareName = Blocked \<Longrightarrow>
       ListReleasesForSoftware s vs softwareName sortField sortOrder Blocked"
  | list_failed:
      "ListReleasesMetadataForSoftware s vs softwareName = Return (Inl err) \<Longrightarrow>
       ListReleasesForSoftware s vs softwareName sortField sortOrder
         (Return (Inl (Wrap ''failed to list releases for software %s'' err)))"
  | list_sorted:
      "ListReleasesMetadataForSoftware s vs softwareName = Return (Inr listed) \<Longrightarrow>
       sort_Slice (sort_less s sortField sortOrder) listed ordered \<Longrightarrow>
       ListReleasesForSoftware s vs softwareName sortField sortOrder (Return (Inr ordered))"

inductive GetLatestReleaseForSoftware ::
  "sys \<Rightarrow> string list \<Rightarrow> string \<Rightarrow> (error + addr) outcome \<Rightarrow> bool"
  for s vs softwareName where
    latest_blocked:
      "ListReleasesMetadataForSoftware s vs softwareName = Blocked \<Longrightarrow>
       GetLatestReleaseForSoftware s vs softwareName Blocked"
  | latest_failed:
      "ListReleasesMetadataForSoftware s vs softwareName = Return (Inl err) \<Longrightarrow>
       GetLatestReleaseForSoftware s vs softwareName
         (Return (Inl (Wrap ''failed to get releases for software %s to find latest'' err)))"
  | latest_none:
      "ListReleasesMetadataForSoftware s vs softwareName = Return (Inr []) \<Longrightarrow>
       GetLatestReleaseForSoftware s vs softwareName (Return (Inl (NoReleases softwareName)))"
  | latest_first:
      "ListReleasesMetadataForSoftware s vs softwareName = Return (Inr listed) \<Longrightarrow>
       listed \<noteq> [] \<Longrightarrow>
       sort_Slice (\<lambda>i j. GreaterThan (version_of s i) (version_of s j)) listed (first # rest) \<Longrightarrow>
       GetLatestReleaseForSoftware s vs softwareName (Return (Inr first))"

text \<open>What \<open>GreaterThan\<close> compares.\<close>

definition version_key :: "Version \<Rightarrow> int \<times> int \<times> int" where
  "version_key v = (Major v, Minor v, Patch v)"

section \<open>Properties of the store that the claims speak of\<close>

text \<open>Every record is stored under its own software name and version. The store is built
  that way: \<open>loadReleasesMetadata\<close>, \<open>CreateReleaseMetadata\<close> and \<open>UpdateReleaseMetadata\<close> all
  take the key from the record's fields, and nothing in the core writes these two fields
  of a stored record.\<close>

definition keyed_by_fields :: "sys \<Rightarrow> bool" where
  "keyed_by_fields s \<longleftrightarrow>
     (\<forall>name version p. lookup s (name, version) = Some p \<longrightarrow>
        SoftwareName (heap s p) = name \<and> Version (heap s p) = version)"

text \<open>The pointer is held by the store, under some key.\<close>

definition stored :: "sys \<Rightarrow> addr \<Rightarrow> bool" where
  "stored s p \<longleftrightarrow> (\<exists>k. lookup s k = Some p)"

text \<open>The state in which the loop body of the reconciliation leaves, whichever way it
  leaves.\<close>

definition state_after :: "(error option outcome \<times> sys) + sys \<Rightarrow> sys" where
  "state_after r = (case r of Inl (x, s') \<Rightarrow> s' | Inr s' \<Rightarrow> s')"

text \<open>A record agrees with its file: the path can be derived, the file is there, and the
  record says \<open>available\<close> with the size of the file.\<close>

definition in_sync :: "golib \<Rightarrow> string \<Rightarrow> sys \<Rightarrow> addr \<Rightarrow> bool" where
  "in_sync lib repoPath s p =
     (case getReleaseFilePath lib repoPath (heap s p) of
        Inl pan \<Rightarrow> False
      | Inr path \<Rightarrow>
          (case os_Stat s path of
             Inl err \<Rightarrow> False
           | Inr fi \<Rightarrow>
               ReleaseState (heap s p) = ''available'' \<and> FileSize (heap s p) = Size s fi))"

text \<open>The loop body run over a list of records while it goes on: the state after the
  last of them, or \<open>None\<close> when one of them makes the function leave or wait.\<close>

fun repairs :: "golib \<Rightarrow> string \<Rightarrow> addr list \<Rightarrow> sys \<Rightarrow> sys option" where
  "repairs lib repoPath [] s = Some s"
| "repairs lib repoPath (metadata # rest) s =
     (case reconcile_one lib repoPath metadata s of
        Inl r \<Rightarrow> None
      | Inr s' \<Rightarrow> repairs lib repoPath rest s')"

text \<open>Two states with the same file system, the same lock and the same keys in every
  record.\<close>

definition same_world :: "sys \<Rightarrow> sys \<Rightarrow> bool" where
  "same_world s s' \<longleftrightarrow>
     nodes s' = nodes s \<and> deny s' = deny s \<and> dirsize s' = dirsize s \<and>
     filepath s' = filepath s \<and> mu s' = mu s \<and> releases s' = releases s \<and>
     (\<forall>q. SoftwareName (heap s' q) = SoftwareName (heap s q) \<and>
          Version (heap s' q) = Version (heap s q))"

section \<open>Example states\<close>

definition release :: "string \<Rightarrow> string \<Rightarrow> string \<Rightarrow> int \<Rightarrow> ReleaseMetadata" where
  "release name version st sz =
     \<lparr>ID = [], SoftwareName = name, Version = version, ReleaseTimestamp = 0, FileSize = sz,
      ReleaseState = st, Changelog = [], ReleaseDate = 0\<rparr>"

text \<open>A store with the one release \<open>acme 1.0.0\<close>, recorded as available with 1024 bytes,
  the lock free, and no file on disk.\<close>

definition acme_store :: sys where
  "acme_store =
     \<lparr>filepath = ''db.json'', mu = Unlocked,
      releases = [''acme'' \<mapsto> [''1.0.0'' \<mapsto> 0]],
      heap = (\<lambda>a. release ''acme'' ''1.0.0'' ''available'' 1024),
      dbfile = NoFile, nodes = Map.empty, dirsize = 0, deny = (\<lambda>c n. False)\<rparr>"

text \<open>The paths that \<open>getReleaseFilePath\<close> derives below the root \<open>repo\<close> for version
  \<open>1.0.0\<close> of the software \<open>a\<close> and of the software \<open>b\<close>.\<close>

definition path_a :: string where
  "path_a = ''repo/000097_a/000097_a_01.00.00.tgz''"

definition path_b :: string where
  "path_b = ''repo/000098_b/000098_b_01.00.00.tgz''"

text \<open>A store with the release \<open>a 1.0.0\<close>, recorded as unavailable with 1024 bytes while
  its file is on disk with 1024 bytes.\<close>

definition one_store :: sys where
  "one_store =
     \<lparr>filepath = ''db.json'', mu = Unlocked,
      releases = [''a'' \<mapsto> [''1.0.0'' \<mapsto> 0]],
      heap = (\<lambda>p. release ''a'' ''1.0.0'' ''unavailable'' 1024),
      dbfile = NoFile, nodes = [path_a \<mapsto> RegularFile 1024], dirsize = 0,
      deny = (\<lambda>c n. False)\<rparr>"

text \<open>The same with a second release \<open>b 1.0.0\<close>, whose path cannot be examined:
  \<open>os.Stat\<close> fails on it with a permission error.\<close>

definition two_store :: sys where
  "two_store =
     \<lparr>filepath = ''db.json'', mu = Unlocked,
      releases = [''a'' \<mapsto> [''1.0.0'' \<mapsto> 0], ''b'' \<mapsto> [''1.0.0'' \<mapsto> 2]],
      heap = (\<lambda>p. if p = 0 then release ''a'' ''1.0.0'' ''unavailable'' 1024
                   else release ''b'' ''1.0.0'' ''available'' 10),
      dbfile = NoFile, nodes = [path_a \<mapsto> RegularFile 1024], dirsize = 0,
      deny = (\<lambda>c n. c = SysStat \<and> n = path_b)\<rparr>"

text \<open>The directory and the file of \<open>acme 1.0.0\<close> below the root \<open>repo\<close>.\<close>

definition acme_dir :: string where
  "acme_dir = ''repo/891194_acme''"

definition acme_path :: string where
  "acme_path = ''repo/891194_acme/891194_acme_01.00.00.tgz''"

text \<open>A store that holds \<open>acme 1.0.0\<close> with its directory and its file of 1024 bytes, and
  an archive \<open>x.tgz\<close> of 2048 bytes to upload. With \<open>True\<close> the file cannot be removed:
  \<open>os.Remove\<close> fails on it with a permission error.\<close>

definition upload_store :: "bool \<Rightarrow> sys" where
  "upload_store no_remove =
     \<lparr>filepath = ''db.json'', mu = Unlocked,
      releases = [''acme'' \<mapsto> [''1.0.0'' \<mapsto> 0]],
      heap = (\<lambda>a. release ''acme'' ''1.0.0'' ''available'' 1024),
      dbfile = NoFile,
      nodes = [''x.tgz'' \<mapsto> RegularFile 2048, acme_dir \<mapsto> Directory,
               acme_path \<mapsto> RegularFile 1024],
      dirsize = 0,
      deny = (\<lambda>c n. no_remove \<and> c = SysRemove \<and> n = acme_path)\<rparr>"

text \<open>A store with two releases of \<open>a\<close>, stored under the versions \<open>v\<close> and \<open>w\<close>.\<close>

definition pair_store :: "string \<Rightarrow> string \<Rightarrow> sys" where
  "pair_store v w =
     \<lparr>filepath = ''db.json'', mu = Unlocked,
      releases = [''a'' \<mapsto> [v \<mapsto> 0, w \<mapsto> 2]],
      heap = (\<lambda>p. if p = 0 then release ''a'' v ''available'' 10
                   else release ''a'' w ''available'' 10),
      dbfile = NoFile, nodes = Map.empty, dirsize = 0, deny = (\<lambda>c n. False)\<rparr>"

section \<open>Version parsing\<close>

lemma not_digit_sign[simp]: "\<not> is_digit CHR ''-''" "\<not> is_digit CHR ''+''" "\<not> is_digit CHR ''.''"
  by (simp_all add: is_digit_def)

lemma SplitN_3:
  "SplitN s sep 3 =
     (if sep \<in> set s
      then (if sep \<in> set (tl (dropWhile (\<lambda>c. c \<noteq> sep) s))
            then [takeWhile (\<lambda>c. c \<noteq> sep) s,
                  takeWhile (\<lambda>c. c \<noteq> sep) (tl (dropWhile (\<lambda>c. c \<noteq> sep) s)),
                  tl (dropWhile (\<lambda>c. c \<noteq> sep) (tl (dropWhile (\<lambda>c. c \<noteq> sep) s)))]
            else [takeWhile (\<lambda>c. c \<noteq> sep) s, tl (dropWhile (\<lambda>c. c \<noteq> sep) s)])
      else [s])"
  by (simp add: numeral_3_eq_3)

lemma split_at_sep:
  assumes "sep \<in> set s"
  shows "s = takeWhile (\<lambda>c. c \<noteq> sep) s @ sep # tl (dropWhile (\<lambda>c. c \<noteq> sep) s)"
proof -
  have "dropWhile (\<lambda>c. c \<noteq> sep) s \<noteq> []" using assms by (simp add: dropWhile_eq_Nil_conv)
  moreover have "hd (dropWhile (\<lambda>c. c \<noteq> sep) s) = sep"
    using assms hd_dropWhile[of "\<lambda>c. c \<noteq> sep" s] calculation by auto
  ultimately have "dropWhile (\<lambda>c. c \<noteq> sep) s = sep # tl (dropWhile (\<lambda>c. c \<noteq> sep) s)"
    by (cases "dropWhile (\<lambda>c. c \<noteq> sep) s") auto
  then show ?thesis by (metis takeWhile_dropWhile_id)
qed

lemma SplitN_3_append:
  assumes "sep \<notin> set x" "sep \<notin> set y"
  shows "SplitN (x @ sep # y @ sep # z) sep 3 = [x, y, z]"
proof -
  have a: "takeWhile (\<lambda>c. c \<noteq> sep) (x @ sep # r) = x" for r
    using assms(1) by (induction x) auto
  have b: "dropWhile (\<lambda>c. c \<noteq> sep) (x @ sep # r) = sep # r" for r
    using assms(1) by (induction x) auto
  have c: "takeWhile (\<lambda>c. c \<noteq> sep) (y @ sep # r) = y" for r
    using assms(2) by (induction y) auto
  have d: "dropWhile (\<lambda>c. c \<noteq> sep) (y @ sep # r) = sep # r" for r
    using assms(2) by (induction y) auto
  show ?thesis by (simp add: SplitN_3 a b c d)
qed

lemma SplitN_3_length:
  assumes "length (SplitN s sep 3) = 3"
  shows "\<exists>x y z. s = x @ sep # y @ sep # z \<and> sep \<notin> set x \<and> sep \<notin> set y \<and> SplitN s sep 3 = [x, y, z]"
proof -
  let ?P = "\<lambda>c. c \<noteq> sep"
  let ?r = "tl (dropWhile ?P s)"
  from assms have 1: "sep \<in> set s" and 2: "sep \<in> set ?r"
    by (auto simp: SplitN_3 split: if_splits)
  have "s = takeWhile ?P s @ sep # ?r" using split_at_sep[OF 1] .
  moreover have "?r = takeWhile ?P ?r @ sep # tl (dropWhile ?P ?r)" using split_at_sep[OF 2] .
  moreover have "sep \<notin> set (takeWhile ?P s)" "sep \<notin> set (takeWhile ?P ?r)"
    by (auto dest: set_takeWhileD)
  moreover have "SplitN s sep 3 = [takeWhile ?P s, takeWhile ?P ?r, tl (dropWhile ?P ?r)]"
    using 1 2 by (simp add: SplitN_3)
  ultimately show ?thesis by metis
qed

lemma Atoi_ok_iff: "(\<exists>v. Atoi s = Inr v) \<longleftrightarrow> signed_decimal s"
proof
  assume "\<exists>v. Atoi s = Inr v"
  then obtain v where v: "Atoi s = Inr v" ..
  let ?ds = "if s \<noteq> [] \<and> (hd s = CHR ''-'' \<or> hd s = CHR ''+'') then tl s else s"
  from v have ds: "?ds \<noteq> []" "list_all is_digit ?ds"
    by (auto simp: Atoi_def Let_def split: if_splits)
  show "signed_decimal s"
  proof (cases "s \<noteq> [] \<and> hd s = CHR ''-''")
    case True
    then have s: "s = ''-'' @ tl s" by (cases s) auto
    from v True have "digits_value 0 (tl s) \<le> 2 ^ 63"
      by (auto simp: Atoi_def Let_def split: if_splits)
    with ds True s show ?thesis unfolding signed_decimal_def
      by (intro exI[of _ "''-''"] exI[of _ "tl s"]) auto
  next
    case False
    note nf = False
    show ?thesis
    proof (cases "s \<noteq> [] \<and> hd s = CHR ''+''")
      case True
      then have s: "s = ''+'' @ tl s" by (cases s) auto
      from v True have "digits_value 0 (tl s) < 2 ^ 63"
        by (auto simp: Atoi_def Let_def split: if_splits)
      with ds True s show ?thesis unfolding signed_decimal_def
        by (intro exI[of _ "''+''"] exI[of _ "tl s"]) auto
    next
      case False
      with nf v have "digits_value 0 s < 2 ^ 63"
        by (auto simp: Atoi_def Let_def split: if_splits)
      with ds False nf show ?thesis unfolding signed_decimal_def
        by (intro exI[of _ "[]"] exI[of _ "s"]) auto
    qed
  qed
next
  assume "signed_decimal s"
  then obtain sgn ds where s: "s = sgn @ ds" and sgn: "sgn = [] \<or> sgn = ''+'' \<or> sgn = ''-''"
    and ds: "ds \<noteq> []" "list_all is_digit ds"
    and r: "if sgn = ''-'' then digits_value 0 ds \<le> 2 ^ 63 else digits_value 0 ds < 2 ^ 63"
    unfolding signed_decimal_def by blast
  from ds have hd: "is_digit (hd ds)" by (cases ds) auto
  then have hdne: "hd ds \<noteq> CHR ''-''" "hd ds \<noteq> CHR ''+''" by auto
  from sgn show "\<exists>v. Atoi s = Inr v"
  proof (elim disjE)
    assume "sgn = []"
    with s ds hdne r show ?thesis by (auto simp: Atoi_def Let_def)
  next
    assume "sgn = ''+''"
    with s ds r show ?thesis by (auto simp: Atoi_def Let_def)
  next
    assume "sgn = ''-''"
    with s ds r show ?thesis by (auto simp: Atoi_def Let_def)
  qed
qed

lemma digits_no_dot: "list_all is_digit ds \<Longrightarrow> CHR ''.'' \<notin> set ds"
  by (induction ds) (auto simp: is_digit_def)

lemma signed_decimal_no_dot: "signed_decimal s \<Longrightarrow> CHR ''.'' \<notin> set s"
  unfolding signed_decimal_def by (auto dest: digits_no_dot)

lemma parseVersion_ok_iff: "(\<exists>v. parseVersion s = Inr v) \<longleftrightarrow> three_components s"
proof
  assume "\<exists>v. parseVersion s = Inr v"
  then obtain v where v: "parseVersion s = Inr v" ..
  then have len: "length (SplitN s CHR ''.'' 3) = 3"
    by (auto simp: parseVersion_def Let_def split: if_splits)
  from SplitN_3_length[OF len] obtain x y z where
    s: "s = x @ CHR ''.'' # y @ CHR ''.'' # z" and sp: "SplitN s CHR ''.'' 3 = [x, y, z]" by blast
  from v sp have "(\<exists>a. Atoi x = Inr a) \<and> (\<exists>a. Atoi y = Inr a) \<and> (\<exists>a. Atoi z = Inr a)"
    by (auto simp: parseVersion_def Let_def split: if_splits sum.splits)
  with s show "three_components s"
    unfolding three_components_def by (auto simp: Atoi_ok_iff)
next
  assume "three_components s"
  then obtain x y z where s: "s = x @ CHR ''.'' # y @ CHR ''.'' # z"
    and d: "signed_decimal x" "signed_decimal y" "signed_decimal z"
    unfolding three_components_def by auto
  from d obtain a b c where abc: "Atoi x = Inr a" "Atoi y = Inr b" "Atoi z = Inr c"
    using Atoi_ok_iff by blast
  have sp: "SplitN s CHR ''.'' 3 = [x, y, z]"
    unfolding s using d by (intro SplitN_3_append signed_decimal_no_dot)
  show "\<exists>v. parseVersion s = Inr v"
    by (simp add: parseVersion_def Let_def sp abc)
qed

lemma signed_decimal_digit: "is_digit c \<Longrightarrow> signed_decimal [c]"
  unfolding signed_decimal_def
  by (intro exI[of _ "[]"] exI[of _ "[c]"]) (auto simp: is_digit_def)

text \<open>
  C5 (as the code has it). \<open>parseVersion\<close> succeeds exactly when the string is
  \<open>x.y.z\<close> with each of the three components accepted by \<open>strconv.Atoi\<close>: an optional
  sign \<open>+\<close> or \<open>-\<close> followed by decimal digits, the value within 64 bits. Every other
  string gives a parse error, and \<open>parse("1.2")\<close> is one of them. A component may
  therefore be negative.
\<close>

theorem parseVersion_succeeds_iff:
  "((\<exists>v. parseVersion s = Inr v) \<longleftrightarrow> three_components s) \<and>
   ((\<exists>e. parseVersion s = Inl e) \<longleftrightarrow> \<not> three_components s) \<and>
   parseVersion ''1.2'' = Inl (InvalidFormat ''1.2'')"
proof (intro conjI)
  show ok: "(\<exists>v. parseVersion s = Inr v) \<longleftrightarrow> three_components s"
    by (rule parseVersion_ok_iff)
  show "(\<exists>e. parseVersion s = Inl e) \<longleftrightarrow> \<not> three_components s"
    using ok by (cases "parseVersion s") auto
  show "parseVersion ''1.2'' = Inl (InvalidFormat ''1.2'')"
    by (simp add: parseVersion_def numeral_3_eq_3)
qed

theorem parseVersion_succeeds_iff_witness:
  "three_components ''1.2.3'' \<and> (\<exists>v. parseVersion ''1.2.3'' = Inr v)"
proof -
  have d: "signed_decimal ''1''" "signed_decimal ''2''" "signed_decimal ''3''"
    by (rule signed_decimal_digit, simp add: is_digit_def)+
  have "''1.2.3'' = ''1'' @ ''.'' @ ''2'' @ ''.'' @ ''3''" by simp
  with d have t: "three_components ''1.2.3''"
    unfolding three_components_def by blast
  with parseVersion_succeeds_iff [of "''1.2.3''"] show ?thesis by blast
qed

text \<open>The claim as the specification words it fails at \<open>-1.2.3\<close>: the first component
  is not a non-negative integer, and the code parses it to major version \<open>-1\<close>.\<close>

theorem parseVersion_negative_counterexample:
  "parseVersion ''-1.2.3'' =
     Inr \<lparr>Major = - 1, Minor = 2, Patch = 3, Original = ''-1.2.3''\<rparr> \<and>
   \<not> spec_well_formed ''-1.2.3''"
  by (simp add: parseVersion_def Atoi_def is_digit_def numeral_3_eq_3 spec_well_formed_def)

section \<open>Path derivation\<close>

lemma replicate_small:
  "replicate 1 c = [c]" "replicate 2 c = [c, c]" "replicate 3 c = [c, c, c]"
  "replicate 4 c = [c, c, c, c]" "replicate 5 c = [c, c, c, c, c]"
  by (simp_all add: eval_nat_numeral)

lemma length_Split: "length (Split s sep) = Suc (count_list s sep)"
  by (induction s) (auto split: list.splits)

lemma mask_bounds: "0 \<le> sint ((w :: 64 word) AND 0xFFFFF) \<and> sint (w AND 0xFFFFF) \<le> 0xFFFFF"
proof -
  have le: "w AND 0xFFFFF \<le> 0xFFFFF" by (rule word_and_le1)
  then have u: "uint (w AND 0xFFFFF) \<le> 0xFFFFF" by (simp add: word_le_def)
  have lo: "- (2 ^ 63) \<le> uint (w AND 0xFFFFF)"
    by (rule order_trans [of _ 0]) simp_all
  have hi: "uint (w AND 0xFFFFF) < 2 ^ 63"
    by (rule le_less_trans [OF u]) simp
  have "signed_take_bit 63 (uint (w AND 0xFFFFF)) = uint (w AND 0xFFFFF)"
    using lo hi by (rule signed_take_bit_int_eq_self)
  then have "sint (w AND 0xFFFFF) = uint (w AND 0xFFFFF)"
    by (simp add: sint_uint)
  with u show ?thesis by simp
qed

lemma generateSoftwareIDFromName_range:
  "0 \<le> generateSoftwareIDFromName lib name \<and> generateSoftwareIDFromName lib name \<le> 1048575"
  using mask_bounds by (simp add: generateSoftwareIDFromName_def)

lemma length_decimal_le: "0 < k \<Longrightarrow> n < 10 ^ k \<Longrightarrow> length (decimal n) \<le> k"
proof (induction k arbitrary: n)
  case 0 then show ?case by simp
next
  case (Suc k)
  show ?case
  proof (cases "n < 10")
    case True then show ?thesis by (simp add: decimal.simps)
  next
    case False
    then have "0 < k" using Suc.prems by (cases k) auto
    moreover have "n div 10 < 10 ^ k" using Suc.prems by (simp add: less_mult_imp_div_less mult.commute)
    ultimately have "length (decimal (n div 10)) \<le> k" by (rule Suc.IH)
    with False show ?thesis by (subst decimal.simps) simp
  qed
qed

lemma length_decimal_gt: "10 ^ k \<le> n \<Longrightarrow> k < length (decimal n)"
proof (induction k arbitrary: n)
  case 0 then show ?case by (subst decimal.simps) simp
next
  case (Suc k)
  then have n10: "\<not> n < 10" by (cases k) (auto simp: not_less intro: order_trans[rotated])
  have "10 ^ k \<le> n div 10" using Suc.prems by (simp add: less_eq_div_iff_mult_less_eq mult.commute)
  then have "k < length (decimal (n div 10))" by (rule Suc.IH)
  with n10 show ?case by (subst decimal.simps) simp
qed

lemma digit_char_is_digit: "is_digit (digit_char d)"
  by (simp add: digit_char_def is_digit_def)

lemma decimal_digits: "list_all is_digit (decimal n)"
  by (induction n rule: decimal.induct) (subst decimal.simps, simp add: digit_char_is_digit)

lemma is_digit_zero: "is_digit CHR ''0''"
  by (simp add: is_digit_def)

lemma fmt_06d_digits: "0 \<le> n \<Longrightarrow> list_all is_digit (fmt_06d n)"
  using decimal_digits [of "nat n"] by (auto simp: fmt_06d_def list_all_iff is_digit_zero)

lemma fmt_06d_length:
  assumes "0 \<le> n" "n \<le> 1048575"
  shows "length (fmt_06d n) = (if n < 1000000 then 6 else 7)"
proof (cases "n < 1000000")
  case True
  with assms have "nat n < 10 ^ 6" by simp
  then have "length (decimal (nat n)) \<le> 6" by (intro length_decimal_le) simp_all
  with assms True show ?thesis by (simp add: fmt_06d_def)
next
  case False
  with assms have "10 ^ 6 \<le> nat n" "nat n < 10 ^ 7" by simp_all
  then have "6 < length (decimal (nat n))" "length (decimal (nat n)) \<le> 7"
    by (auto intro: length_decimal_gt length_decimal_le)
  with assms False show ?thesis by (simp add: fmt_06d_def)
qed

lemma Split_three:
  assumes "sep \<notin> set x" "sep \<notin> set y" "sep \<notin> set z"
  shows "Split (x @ sep # y @ sep # z) sep = [x, y, z]"
proof -
  have last: "Split z sep = [z]" using assms(3) by (induction z) (auto split: list.splits)
  have step: "sep \<notin> set u \<Longrightarrow> Split (u @ sep # r) sep = u # Split r sep" for u r
    by (induction u) (auto split: list.splits)
  show ?thesis using assms by (simp add: step last)
qed

lemma getReleaseFilePath_three:
  assumes "Split (Version m) CHR ''.'' = v0 # v1 # v2 # vs"
  shows "getReleaseFilePath lib repoRoot m =
     Inr (spec_layout lib repoRoot (fmt_06d (generateSoftwareIDFromName lib (SoftwareName m)))
            (sanitizeFilename lib (SoftwareName m)) (fmt_02s lib v0) (fmt_02s lib v1) (fmt_02s lib v2))"
  using assms
  by (simp add: getReleaseFilePath_def index_def spec_layout_def getSoftwareDirPath_def)

text \<open>
  C6 (as the code has it). For every software name whose identifier is below 1000000
  and every well-formed version \<open>x.y.z\<close>, the derived path has the layout of the
  specification, where the prefix is the identifier written in decimal and filled with
  zeros to six digits, and where each version component is filled with zeros on the left
  to two characters: a component of two or more runes appears as given, a component of
  one rune gets a zero in front.
\<close>

theorem release_path_layout:
  assumes "Version m = x @ ''.'' @ y @ ''.'' @ z"
    and "signed_decimal x" and "signed_decimal y" and "signed_decimal z"
    and "generateSoftwareIDFromName lib (SoftwareName m) < 1000000"
  shows "getReleaseFilePath lib repoRoot m =
           Inr (spec_layout lib repoRoot (fmt_06d (generateSoftwareIDFromName lib (SoftwareName m)))
                  (sanitizeFilename lib (SoftwareName m)) (fmt_02s lib x) (fmt_02s lib y) (fmt_02s lib z)) \<and>
         list_all is_digit (fmt_06d (generateSoftwareIDFromName lib (SoftwareName m))) \<and>
         length (fmt_06d (generateSoftwareIDFromName lib (SoftwareName m))) = 6 \<and>
         (\<forall>c \<in> {x, y, z}. fmt_02s lib c =
            (if 2 \<le> length (runes lib c) then c
             else if length (runes lib c) = 1 then CHR ''0'' # c else ''00'' @ c))"
proof -
  have "Split (Version m) CHR ''.'' = [x, y, z]"
    using assms by (simp add: Split_three signed_decimal_no_dot)
  then have "getReleaseFilePath lib repoRoot m =
           Inr (spec_layout lib repoRoot (fmt_06d (generateSoftwareIDFromName lib (SoftwareName m)))
                  (sanitizeFilename lib (SoftwareName m)) (fmt_02s lib x) (fmt_02s lib y) (fmt_02s lib z))"
    by (rule getReleaseFilePath_three)
  moreover note r = generateSoftwareIDFromName_range [of lib "SoftwareName m"]
  moreover have "list_all is_digit (fmt_06d (generateSoftwareIDFromName lib (SoftwareName m)))"
    using r by (intro fmt_06d_digits) simp
  moreover have "length (fmt_06d (generateSoftwareIDFromName lib (SoftwareName m))) = 6"
    using r assms(5) by (simp add: fmt_06d_length)
  moreover have "fmt_02s lib c =
            (if 2 \<le> length (runes lib c) then c
             else if length (runes lib c) = 1 then CHR ''0'' # c else ''00'' @ c)" for c
  proof -
    consider "length (runes lib c) = 0" | "length (runes lib c) = 1" | "2 \<le> length (runes lib c)"
      by linarith
    then show ?thesis
      by cases (simp_all add: fmt_02s_def replicate_small)
  qed
  ultimately show ?thesis by blast
qed

lemma decimal_97: "decimal 97 = ''97''"
  by (simp add: decimal.simps digit_char_def)

lemma decimal_1000000: "decimal 1000000 = ''1000000''"
  by (simp add: decimal.simps digit_char_def)

lemma fmt_06d_97: "fmt_06d 97 = ''000097''"
  by (simp add: fmt_06d_def decimal_97 replicate_small)

lemma fmt_02s_ascii_1: "fmt_02s ascii_lib [c] = [CHR ''0'', c]"
  by (simp add: fmt_02s_def ascii_lib_def)

lemma sanitizeFilename_a: "sanitizeFilename ascii_lib ''a'' = ''a''"
  by (simp add: sanitizeFilename_def ascii_lib_def ascii_lower_def)

lemma generateSoftwareIDFromName_a: "generateSoftwareIDFromName ascii_lib ''a'' = 97"
  by (simp add: generateSoftwareIDFromName_def ascii_lib_def)

lemma generateSoftwareIDFromName_dwta: "generateSoftwareIDFromName ascii_lib ''dwta'' = 1000000"
  by (simp add: generateSoftwareIDFromName_def ascii_lib_def)

lemma signed_decimal_123: "signed_decimal ''1''" "signed_decimal ''2''" "signed_decimal ''3''"
  by (rule signed_decimal_digit, simp add: is_digit_def)+

theorem release_path_layout_witness:
  "getReleaseFilePath ascii_lib ''repo''
     \<lparr>ID = [], SoftwareName = ''a'', Version = ''1.2.3'', ReleaseTimestamp = 0, FileSize = 0,
      ReleaseState = [], Changelog = [], ReleaseDate = 0\<rparr> =
   Inr ''repo/000097_a/000097_a_01.02.03.tgz''"
proof -
  let ?m = "\<lparr>ID = [], SoftwareName = ''a'', Version = ''1.2.3'', ReleaseTimestamp = 0, FileSize = 0,
      ReleaseState = [], Changelog = [], ReleaseDate = 0\<rparr>"
  have v: "Version ?m = ''1'' @ ''.'' @ ''2'' @ ''.'' @ ''3''" by simp
  have i: "generateSoftwareIDFromName ascii_lib (SoftwareName ?m) < 1000000"
    by (simp add: generateSoftwareIDFromName_a)
  from release_path_layout [OF v signed_decimal_123 i, of "''repo''"]
  have "getReleaseFilePath ascii_lib ''repo'' ?m =
          Inr (spec_layout ascii_lib ''repo'' (fmt_06d 97) (sanitizeFilename ascii_lib ''a'')
                 (fmt_02s ascii_lib ''1'') (fmt_02s ascii_lib ''2'') (fmt_02s ascii_lib ''3''))"
    by (simp add: generateSoftwareIDFromName_a)
  also have "\<dots> = Inr ''repo/000097_a/000097_a_01.02.03.tgz''"
    by (simp add: spec_layout_def fmt_06d_97 fmt_02s_ascii_1 sanitizeFilename_a)
       (simp add: ascii_lib_def)
  finally show ?thesis .
qed

text \<open>The claim as worded fails at version \<open>1.2.3\<close> of software \<open>a\<close>: the file is not
  stored under the layout with the components as given, but with \<open>01.02.03\<close>.\<close>

theorem release_path_layout_counterexample:
  "getReleaseFilePath ascii_lib ''repo''
     \<lparr>ID = [], SoftwareName = ''a'', Version = ''1.2.3'', ReleaseTimestamp = 0, FileSize = 0,
      ReleaseState = [], Changelog = [], ReleaseDate = 0\<rparr> \<noteq>
   Inr (spec_layout ascii_lib ''repo'' ''000097'' ''a'' ''1'' ''2'' ''3'') \<and>
   getReleaseFilePath ascii_lib ''repo''
     \<lparr>ID = [], SoftwareName = ''a'', Version = ''1.2.3'', ReleaseTimestamp = 0, FileSize = 0,
      ReleaseState = [], Changelog = [], ReleaseDate = 0\<rparr> =
   Inr (spec_layout ascii_lib ''repo'' ''000097'' ''a'' ''01'' ''02'' ''03'')"
  by (simp add: getReleaseFilePath_def index_def getSoftwareDirPath_def spec_layout_def
        generateSoftwareIDFromName_a fmt_06d_97 fmt_02s_ascii_1 sanitizeFilename_a)
     (simp add: ascii_lib_def)

text \<open>The comment in \<open>generateSoftwareIDFromName\<close> says that the mask keeps the identifier
  within six digits. It does not: the mask lets identifiers up to 1048575 through, and the
  name \<open>dwta\<close> has the identifier 1000000, whose prefix takes seven digits.\<close>

lemma seven_digit_prefix:
  "fmt_06d (generateSoftwareIDFromName ascii_lib ''dwta'') = ''1000000''"
  by (simp add: generateSoftwareIDFromName_dwta fmt_06d_def decimal_1000000)

lemma index_Split:
  "index (Split v sep) i =
     (if i \<le> count_list v sep then Inr (Split v sep ! i)
      else Inl (IndexOutOfRange i (Suc (count_list v sep))))"
  by (simp add: index_def length_Split less_Suc_eq_le)

lemma getReleaseFilePath_panic:
  assumes "count_list (Version m) CHR ''.'' < 2"
  shows "getReleaseFilePath lib repoPath m =
           Inl (IndexOutOfRange (Suc (count_list (Version m) CHR ''.''))
                  (Suc (count_list (Version m) CHR ''.'')))"
proof -
  from assms consider "count_list (Version m) CHR ''.'' = 0" | "count_list (Version m) CHR ''.'' = 1"
    by linarith
  then show ?thesis
    by cases (simp_all add: getReleaseFilePath_def index_Split)
qed

lemma getReleaseFilePath_total:
  assumes "2 \<le> count_list (Version m) CHR ''.''"
  shows "\<exists>path. getReleaseFilePath lib repoPath m = Inr path"
  using assms by (simp add: getReleaseFilePath_def index_Split)

lemma heap_MkdirAll: "heap (snd (os_MkdirAll s name)) = heap s"
  by (simp add: os_MkdirAll_def split: option.splits node.splits)

lemma heap_EnsureReleaseDirExists:
  "heap (snd (EnsureReleaseDirExists lib repoPath softwareName s)) = heap s"
proof -
  have "heap (snd (case os_MkdirAll s d of
                     (Some err, s') \<Rightarrow> (Some (Wrap msg err), s')
                   | (None, s') \<Rightarrow> (None, s'))) = heap s" for d msg
    using heap_MkdirAll [of s d]
    by (cases "os_MkdirAll s d") (auto split: option.splits)
  then show ?thesis
    by (simp add: EnsureReleaseDirExists_def Let_def split: sum.splits)
qed

text \<open>
  C9. \<open>getReleaseFilePath\<close> returns a path exactly when the version string has two dots
  at least, that is three components. With fewer dots the index into the split version
  is out of range and the function panics; so do \<open>GetReleaseTGZReader\<close> and the loop body
  of \<open>ReconcileReleases\<close> on such a record, which derive the path first, and so does
  \<open>StoreReleaseFile\<close> once the directory is there or has been made.
\<close>

theorem getReleaseFilePath_total_iff:
  "((\<exists>path. getReleaseFilePath lib repoPath (heap s p) = Inr path) \<longleftrightarrow>
      2 \<le> count_list (Version (heap s p)) CHR ''.'') \<and>
   (count_list (Version (heap s p)) CHR ''.'' < 2 \<longrightarrow>
      getReleaseFilePath lib repoPath (heap s p) =
        Inl (IndexOutOfRange (Suc (count_list (Version (heap s p)) CHR ''.''))
               (Suc (count_list (Version (heap s p)) CHR ''.''))) \<and>
      GetReleaseTGZReader lib repoPath p s =
        Panic (IndexOutOfRange (Suc (count_list (Version (heap s p)) CHR ''.''))
                 (Suc (count_list (Version (heap s p)) CHR ''.''))) \<and>
      reconcile_one lib repoPath p s =
        Inl (Panic (IndexOutOfRange (Suc (count_list (Version (heap s p)) CHR ''.''))
                      (Suc (count_list (Version (heap s p)) CHR ''.''))), s) \<and>
      (\<forall>s1. EnsureReleaseDirExists lib repoPath (SoftwareName (heap s p)) s = (None, s1) \<longrightarrow>
         StoreReleaseFile lib repoPath tgzFilePath p s =
           (Panic (IndexOutOfRange (Suc (count_list (Version (heap s p)) CHR ''.''))
                     (Suc (count_list (Version (heap s p)) CHR ''.''))), s1)))"
proof (intro conjI impI allI)
  show "(\<exists>path. getReleaseFilePath lib repoPath (heap s p) = Inr path) \<longleftrightarrow>
      2 \<le> count_list (Version (heap s p)) CHR ''.''"
  proof
    assume ok: "\<exists>path. getReleaseFilePath lib repoPath (heap s p) = Inr path"
    show "2 \<le> count_list (Version (heap s p)) CHR ''.''"
    proof (rule ccontr)
      assume "\<not> 2 \<le> count_list (Version (heap s p)) CHR ''.''"
      then have "count_list (Version (heap s p)) CHR ''.'' < 2" by simp
      from getReleaseFilePath_panic [OF this, of lib repoPath] ok show False by simp
    qed
  next
    assume "2 \<le> count_list (Version (heap s p)) CHR ''.''"
    then show "\<exists>path. getReleaseFilePath lib repoPath (heap s p) = Inr path"
      by (rule getReleaseFilePath_total)
  qed
next
  assume few: "count_list (Version (heap s p)) CHR ''.'' < 2"
  show g: "getReleaseFilePath lib repoPath (heap s p) =
        Inl (IndexOutOfRange (Suc (count_list (Version (heap s p)) CHR ''.''))
               (Suc (count_list (Version (heap s p)) CHR ''.'')))"
    using few by (rule getReleaseFilePath_panic)
  show "GetReleaseTGZReader lib repoPath p s =
        Panic (IndexOutOfRange (Suc (count_list (Version (heap s p)) CHR ''.''))
                 (Suc (count_list (Version (heap s p)) CHR ''.'')))"
    by (simp add: GetReleaseTGZReader_def g)
  show "reconcile_one lib repoPath p s =
        Inl (Panic (IndexOutOfRange (Suc (count_list (Version (heap s p)) CHR ''.''))
                      (Suc (count_list (Version (heap s p)) CHR ''.''))), s)"
    by (simp add: reconcile_one_def g)
  fix s1
  assume e: "EnsureReleaseDirExists lib repoPath (SoftwareName (heap s p)) s = (None, s1)"
  have "heap s1 = heap s"
    using heap_EnsureReleaseDirExists [of lib repoPath "SoftwareName (heap s p)" s] e by simp
  with e g show "StoreReleaseFile lib repoPath tgzFilePath p s =
           (Panic (IndexOutOfRange (Suc (count_list (Version (heap s p)) CHR ''.''))
                     (Suc (count_list (Version (heap s p)) CHR ''.''))), s1)"
    by (simp add: StoreReleaseFile_def)
qed

theorem getReleaseFilePath_total_iff_witness:
  "getReleaseFilePath ascii_lib ''repo''
     \<lparr>ID = [], SoftwareName = ''a'', Version = ''1.2'', ReleaseTimestamp = 0, FileSize = 0,
      ReleaseState = [], Changelog = [], ReleaseDate = 0\<rparr> = Inl (IndexOutOfRange 2 2)"
proof -
  let ?m = "\<lparr>ID = [], SoftwareName = ''a'', Version = ''1.2'', ReleaseTimestamp = 0, FileSize = 0,
      ReleaseState = [], Changelog = [], ReleaseDate = 0\<rparr>"
  let ?s = "\<lparr>filepath = [], mu = Unlocked, releases = Map.empty, heap = (\<lambda>a. ?m), dbfile = NoFile,
      nodes = Map.empty, dirsize = 0, deny = (\<lambda>c n. False)\<rparr>"
  have c: "count_list (Version (heap ?s 0)) CHR ''.'' = 1" by simp
  from getReleaseFilePath_total_iff [of ascii_lib "''repo''" ?s 0 "[]"]
  show ?thesis unfolding c by simp
qed

section \<open>The metadata store\<close>

lemma mu_cases: "mu s \<noteq> WriteLocked \<longleftrightarrow> mu s = Unlocked"
  by (cases "mu s") simp_all

lemma Lock_Unlocked: "mu s = Unlocked \<Longrightarrow> Lock s = Some (s\<lparr>mu := WriteLocked\<rparr>)"
  by (simp add: Lock_def)

lemma Lock_WriteLocked: "mu s = WriteLocked \<Longrightarrow> Lock s = None"
  by (simp add: Lock_def)

lemma Unlock_Lock: "mu s = Unlocked \<Longrightarrow> Unlock (s\<lparr>mu := WriteLocked\<rparr>) = s"
  by (simp add: Unlock_def)

lemma save_WriteLocked: "mu s = WriteLocked \<Longrightarrow> saveReleasesMetadata s = (Blocked, s)"
  by (simp add: saveReleasesMetadata_def RLock_def)

lemma save_fields [simp]:
  "releases (snd (saveReleasesMetadata s)) = releases s"
  "heap (snd (saveReleasesMetadata s)) = heap s"
  "nodes (snd (saveReleasesMetadata s)) = nodes s"
  "deny (snd (saveReleasesMetadata s)) = deny s"
  "dirsize (snd (saveReleasesMetadata s)) = dirsize s"
  "filepath (snd (saveReleasesMetadata s)) = filepath s"
  "mu (snd (saveReleasesMetadata s)) = mu s"
  by (simp_all add: saveReleasesMetadata_def RLock_def RUnlock_def Let_def)

lemma put_fields [simp]:
  "heap (put s n v p) = heap s" "nodes (put s n v p) = nodes s"
  "deny (put s n v p) = deny s" "dirsize (put s n v p) = dirsize s"
  "filepath (put s n v p) = filepath s" "mu (put s n v p) = mu s"
  "dbfile (put s n v p) = dbfile s"
  by (cases "releases s n"; simp add: put_def)+

lemma Create_WriteLocked:
  "mu s = WriteLocked \<Longrightarrow> CreateReleaseMetadata s p = (Blocked, s)"
  by (simp add: CreateReleaseMetadata_def Lock_WriteLocked)

lemma Create_existing:
  assumes "mu s = Unlocked"
    and "releases s (SoftwareName (heap s p)) = Some inner"
    and "inner (Version (heap s p)) = Some q"
  shows "CreateReleaseMetadata s p =
           (Return (Some (AlreadyExists (SoftwareName (heap s p)) (Version (heap s p)))), s)"
  using assms
  by (simp add: CreateReleaseMetadata_def Lock_Unlocked Let_def lookup_def deferred_Unlock_def
      Unlock_Lock)


lemma acme_store_fields:
  "mu acme_store = Unlocked"
  "releases acme_store = [''acme'' \<mapsto> [''1.0.0'' \<mapsto> 0]]"
  "heap acme_store p = release ''acme'' ''1.0.0'' ''available'' 1024"
  "dbfile acme_store = NoFile"
  "nodes acme_store = Map.empty"
  "deny acme_store c n = False"
  "filepath acme_store = ''db.json''"
  by (simp_all add: acme_store_def)

lemma release_fields [simp]:
  "SoftwareName (release name version st sz) = name"
  "Version (release name version st sz) = version"
  "ReleaseState (release name version st sz) = st"
  "FileSize (release name version st sz) = sz"
  by (simp_all add: release_def)


text \<open>The other paths of the three writing functions call \<open>saveReleasesMetadata\<close> with
  the write lock held; \<open>saveReleasesMetadata\<close> asks for the read lock of the same mutex
  and waits for ever.\<close>

lemma Update_result:
  "UpdateReleaseMetadata s p =
     (if mu s = WriteLocked then (Blocked, s)
      else if releases s (SoftwareName (heap s p)) = None
      then (Return (Some (NotFoundSoftware (SoftwareName (heap s p)))), s)
      else if lookup s (SoftwareName (heap s p), Version (heap s p)) = None
      then (Return (Some (NotFoundVersion (SoftwareName (heap s p)) (Version (heap s p)))), s)
      else (Blocked, put (s\<lparr>mu := WriteLocked\<rparr>) (SoftwareName (heap s p)) (Version (heap s p)) p))"
proof (cases "mu s")
  case WriteLocked
  then show ?thesis by (simp add: UpdateReleaseMetadata_def Lock_WriteLocked)
next
  case Unlocked
  have l: "lookup (s\<lparr>mu := WriteLocked\<rparr>) k = lookup s k" for k
    by (simp add: lookup_def)
  have sv: "saveReleasesMetadata (put (s\<lparr>mu := WriteLocked\<rparr>) n v p) =
          (Blocked, put (s\<lparr>mu := WriteLocked\<rparr>) n v p)" for n v
    by (rule save_WriteLocked) simp
  from Unlocked show ?thesis
    by (simp add: UpdateReleaseMetadata_def Lock_Unlocked Let_def l sv deferred_Unlock_def
        Unlock_Lock)
qed

lemma Delete_result:
  assumes "mu s = Unlocked" and "releases s name = Some inner" and "inner version = Some q"
  shows "DeleteReleaseMetadata s name version =
           (Blocked, s\<lparr>mu := WriteLocked,
                       releases := (if dom inner = {version} then (releases s)(name := None)
                                    else (releases s)(name \<mapsto> inner(version := None)))\<rparr>)"
proof -
  have e: "inner(version := None) = Map.empty \<longleftrightarrow> dom inner = {version}"
  proof -
    have "inner(version := None) = Map.empty \<longleftrightarrow> dom (inner(version := None)) = {}"
      by (simp only: dom_eq_empty_conv)
    also have "\<dots> \<longleftrightarrow> dom inner = {version}" using assms(3) by auto
    finally show ?thesis .
  qed
  show ?thesis
  proof (cases "dom inner = {version}")
    case True
    with e have e': "inner(version := None) = Map.empty" by simp
    let ?s2 = "s\<lparr>mu := WriteLocked, releases := (releases s)(name := None)\<rparr>"
    have "saveReleasesMetadata ?s2 = (Blocked, ?s2)" by (rule save_WriteLocked) simp
    with assms True show ?thesis
      by (simp add: DeleteReleaseMetadata_def Lock_Unlocked Let_def e' deferred_Unlock_def)
  next
    case False
    with e have e': "inner(version := None) \<noteq> Map.empty" by simp
    let ?s2 = "s\<lparr>mu := WriteLocked, releases := (releases s)(name \<mapsto> inner(version := None))\<rparr>"
    have "saveReleasesMetadata ?s2 = (Blocked, ?s2)" by (rule save_WriteLocked) simp
    with assms False show ?thesis
      by (simp add: DeleteReleaseMetadata_def Lock_Unlocked Let_def e' deferred_Unlock_def)
  qed
qed

lemma reads_WriteLocked:
  assumes "mu s = WriteLocked"
  shows "GetReleaseMetadata s name version = Blocked"
    and "ListReleasesMetadataForSoftware s vs name = Blocked"
    and "ListAllReleasesMetadata s ns vss = Blocked"
  using assms
  by (simp_all add: GetReleaseMetadata_def ListReleasesMetadataForSoftware_def
      ListAllReleasesMetadata_def RLock_def)

text \<open>
  C10, on the code. Deleting a release that is in the store takes the write lock, removes
  the release from the map, and with the last release of a name the name, and then calls
  \<open>saveReleasesMetadata\<close>, which waits for the read lock of the mutex that the call holds
  itself. \<open>DeleteReleaseMetadata\<close> never returns; the lock stays held, the metadata file is
  not written, and every later \<open>GetReleaseMetadata\<close> and
  \<open>ListReleasesMetadataForSoftware\<close> waits for ever instead of answering "not found".
\<close>

theorem Delete_never_returns:
  assumes "mu s = Unlocked" and "releases s name = Some inner" and "inner version = Some q"
  shows "fst (DeleteReleaseMetadata s name version) = Blocked \<and>
         mu (snd (DeleteReleaseMetadata s name version)) = WriteLocked \<and>
         dbfile (snd (DeleteReleaseMetadata s name version)) = dbfile s \<and>
         (dom inner = {version} \<longrightarrow>
            releases (snd (DeleteReleaseMetadata s name version)) name = None) \<and>
         (\<forall>n v. GetReleaseMetadata (snd (DeleteReleaseMetadata s name version)) n v = Blocked) \<and>
         (\<forall>order n. ListReleasesMetadataForSoftware
                      (snd (DeleteReleaseMetadata s name version)) order n = Blocked)"
proof -
  note d = Delete_result [OF assms]
  have m: "mu (snd (DeleteReleaseMetadata s name version)) = WriteLocked"
    unfolding d by simp
  show ?thesis
    using reads_WriteLocked(1,2) [OF m] m unfolding d by simp
qed

theorem Delete_never_returns_witness:
  "fst (DeleteReleaseMetadata acme_store ''acme'' ''1.0.0'') = Blocked \<and>
   releases (snd (DeleteReleaseMetadata acme_store ''acme'' ''1.0.0'')) ''acme'' = None \<and>
   GetReleaseMetadata (snd (DeleteReleaseMetadata acme_store ''acme'' ''1.0.0''))
     ''acme'' ''1.0.0'' = Blocked \<and>
   ListReleasesMetadataForSoftware (snd (DeleteReleaseMetadata acme_store ''acme'' ''1.0.0''))
     [] ''acme'' = Blocked"
proof -
  have a: "mu acme_store = Unlocked"
    and b: "releases acme_store ''acme'' = Some [''1.0.0'' \<mapsto> 0]"
    and c: "[''1.0.0'' \<mapsto> (0::nat)] ''1.0.0'' = Some 0"
    by (simp_all add: acme_store_fields)
  have d: "dom [''1.0.0'' \<mapsto> (0::nat)] = {''1.0.0''}" by simp
  from Delete_never_returns [OF a b c] d show ?thesis by blast
qed

section \<open>Reconciliation\<close>

lemma set_fields [simp]:
  "releases (set_ReleaseState s p st) = releases s"
  "releases (set_FileSize s p sz) = releases s"
  "nodes (set_ReleaseState s p st) = nodes s"
  "nodes (set_FileSize s p sz) = nodes s"
  "deny (set_ReleaseState s p st) = deny s"
  "deny (set_FileSize s p sz) = deny s"
  "dirsize (set_ReleaseState s p st) = dirsize s"
  "dirsize (set_FileSize s p sz) = dirsize s"
  "filepath (set_ReleaseState s p st) = filepath s"
  "filepath (set_FileSize s p sz) = filepath s"
  "dbfile (set_ReleaseState s p st) = dbfile s"
  "dbfile (set_FileSize s p sz) = dbfile s"
  "mu (set_ReleaseState s p st) = mu s"
  "mu (set_FileSize s p sz) = mu s"
  by (simp_all add: set_ReleaseState_def set_FileSize_def)

lemma os_Stat_set [simp]:
  "os_Stat (set_ReleaseState s p st) path = os_Stat s path"
  "os_Stat (set_FileSize s p sz) path = os_Stat s path"
  "Size (set_ReleaseState s p st) n = Size s n"
  "Size (set_FileSize s p sz) n = Size s n"
  by (simp_all add: os_Stat_def Size_def split: node.splits)

lemma heap_set_fields [simp]:
  "FileSize (heap (set_ReleaseState s p st) q) = FileSize (heap s q)"
  "SoftwareName (heap (set_ReleaseState s p st) q) = SoftwareName (heap s q)"
  "Version (heap (set_ReleaseState s p st) q) = Version (heap s q)"
  "SoftwareName (heap (set_FileSize s p sz) q) = SoftwareName (heap s q)"
  "Version (heap (set_FileSize s p sz) q) = Version (heap s q)"
  "ReleaseState (heap (set_FileSize s p sz) q) = ReleaseState (heap s q)"
  "ReleaseState (heap (set_ReleaseState s p st) p) = st"
  "FileSize (heap (set_FileSize s p sz) p) = sz"
  by (simp_all add: set_ReleaseState_def set_FileSize_def)

lemma heap_set_other [simp]:
  "q \<noteq> p \<Longrightarrow> heap (set_ReleaseState s p st) q = heap s q"
  "q \<noteq> p \<Longrightarrow> heap (set_FileSize s p sz) q = heap s q"
  by (simp_all add: set_ReleaseState_def set_FileSize_def)

lemma lookup_set [simp]:
  "lookup (set_ReleaseState s p st) k = lookup s k"
  "lookup (set_FileSize s p sz) k = lookup s k"
  by (simp_all add: lookup_def)

lemma set_ReleaseState_same:
  assumes "ReleaseState (heap s p) = st"
  shows "set_ReleaseState s p st = s"
proof -
  have "(heap s p)\<lparr>ReleaseState := st\<rparr> = heap s p"
    using assms by (cases "heap s p") simp
  then have "(heap s)(p := (heap s p)\<lparr>ReleaseState := st\<rparr>) = heap s"
    by simp
  then show ?thesis by (simp add: set_ReleaseState_def)
qed

lemma Update_never_succeeds: "fst (UpdateReleaseMetadata s p) \<noteq> Return None"
  by (simp add: Update_result)

text \<open>The loop body of the reconciliation, branch by branch.\<close>

lemma reconcile_one_panic:
  "getReleaseFilePath lib repoPath (heap s p) = Inl pan \<Longrightarrow>
   reconcile_one lib repoPath p s = Inl (Panic pan, s)"
  by (simp add: reconcile_one_def)

lemma reconcile_one_error:
  assumes "getReleaseFilePath lib repoPath (heap s p) = Inr path"
    and "os_Stat s path = Inl err" and "\<not> os_IsNotExist err"
  shows "reconcile_one lib repoPath p s =
     Inl (Return (Some (Wrap ''error checking release file during reconciliation for %s %s'' err)), s)"
  using assms by (simp add: reconcile_one_def Let_def)

lemma reconcile_one_same_size:
  assumes "getReleaseFilePath lib repoPath (heap s p) = Inr path"
    and "os_Stat s path = Inr fi" and "FileSize (heap s p) = Size s fi"
  shows "reconcile_one lib repoPath p s = Inr (set_ReleaseState s p ''available'')"
  using assms by (simp add: reconcile_one_def Let_def)

text \<open>Where the record has drifted, the body calls \<open>UpdateReleaseMetadata\<close> on the record
  it has just written to.\<close>

lemma reconcile_one_absent:
  assumes "getReleaseFilePath lib repoPath (heap s p) = Inr path"
    and "os_Stat s path = Inl err" and "os_IsNotExist err"
  shows "reconcile_one lib repoPath p s =
     (case UpdateReleaseMetadata (set_ReleaseState s p ''unavailable'') p of
        (Return (Some e), s2) \<Rightarrow>
          Inl (Return (Some (Wrap ''failed to update metadata during reconciliation for %s %s'' e)), s2)
      | (Return None, s2) \<Rightarrow> Inr s2
      | (Panic pan, s2) \<Rightarrow> Inl (Panic pan, s2)
      | (Blocked, s2) \<Rightarrow> Inl (Blocked, s2))"
  using assms by (simp add: reconcile_one_def Let_def)

lemma reconcile_one_other_size:
  assumes "getReleaseFilePath lib repoPath (heap s p) = Inr path"
    and "os_Stat s path = Inr fi" and "FileSize (heap s p) \<noteq> Size s fi"
  shows "reconcile_one lib repoPath p s =
     (case UpdateReleaseMetadata
             (set_FileSize (set_ReleaseState s p ''available'') p (Size s fi)) p of
        (Return (Some e), s3) \<Rightarrow>
          Inl (Return (Some (Wrap ''failed to update file size during reconciliation for %s %s'' e)), s3)
      | (Return None, s3) \<Rightarrow> Inr s3
      | (Panic pan, s3) \<Rightarrow> Inl (Panic pan, s3)
      | (Blocked, s3) \<Rightarrow> Inl (Blocked, s3))"
  using assms by (simp add: reconcile_one_def Let_def)

lemma Update_outcome:
  obtains s2 where "UpdateReleaseMetadata s p = (Blocked, s2)"
  | e s2 where "UpdateReleaseMetadata s p = (Return (Some e), s2)"
  by (cases "mu s = WriteLocked"; cases "releases s (SoftwareName (heap s p)) = None";
      cases "lookup s (SoftwareName (heap s p), Version (heap s p)) = None")
     (simp_all add: Update_result)

lemma after_Update_not_Inr:
  "(case UpdateReleaseMetadata s p of
      (Return (Some e), s2) \<Rightarrow> Inl (Return (Some (Wrap msg e)), s2)
    | (Return None, s2) \<Rightarrow> Inr s2
    | (Panic pan, s2) \<Rightarrow> Inl (Panic pan, s2)
    | (Blocked, s2) \<Rightarrow> Inl (Blocked, s2)) \<noteq> Inr s'"
  by (rule Update_outcome [of s p]) simp_all

lemma after_Update_not_success:
  "(case UpdateReleaseMetadata s p of
      (Return (Some e), s2) \<Rightarrow> Inl (Return (Some (Wrap msg e)), s2)
    | (Return None, s2) \<Rightarrow> Inr s2
    | (Panic pan, s2) \<Rightarrow> Inl (Panic pan, s2)
    | (Blocked, s2) \<Rightarrow> Inl (Blocked, s2)) \<noteq> Inl (Return None, s')"
  by (rule Update_outcome [of s p]) simp_all

text \<open>The loop goes on after a record only where the file is there with the recorded
  size; all the body has done then is to write \<open>available\<close> into the record.\<close>

lemma reconcile_one_continues:
  assumes "reconcile_one lib repoPath p s = Inr s'"
  shows "\<exists>path fi. getReleaseFilePath lib repoPath (heap s p) = Inr path \<and>
           os_Stat s path = Inr fi \<and> FileSize (heap s p) = Size s fi \<and>
           s' = set_ReleaseState s p ''available''"
proof (cases "getReleaseFilePath lib repoPath (heap s p)")
  case (Inl pan)
  with assms show ?thesis by (simp add: reconcile_one_panic)
next
  case (Inr path)
  show ?thesis
  proof (cases "os_Stat s path")
    case (Inl err)
    show ?thesis
    proof (cases "os_IsNotExist err")
      case True
      from assms show ?thesis
        unfolding reconcile_one_absent [OF Inr Inl True]
        by (simp add: after_Update_not_Inr)
    next
      case False
      with assms Inr Inl show ?thesis by (simp add: reconcile_one_error)
    qed
  next
    case fi: (Inr fi)
    show ?thesis
    proof (cases "FileSize (heap s p) = Size s fi")
      case True
      with assms Inr fi show ?thesis by (simp add: reconcile_one_same_size)
    next
      case False
      from assms show ?thesis
        unfolding reconcile_one_other_size [OF Inr fi False]
        by (simp add: after_Update_not_Inr)
    qed
  qed
qed

lemma reconcile_one_leaves:
  assumes "reconcile_one lib repoPath p s = Inl (x, s')"
  shows "x \<noteq> Return None"
proof (cases "getReleaseFilePath lib repoPath (heap s p)")
  case (Inl pan)
  with assms show ?thesis by (auto simp: reconcile_one_panic)
next
  case (Inr path)
  show ?thesis
  proof (cases "os_Stat s path")
    case (Inl err)
    show ?thesis
    proof (cases "os_IsNotExist err")
      case True
      show ?thesis
      proof
        assume "x = Return None"
        with assms show False
          unfolding reconcile_one_absent [OF Inr Inl True]
          by (simp add: after_Update_not_success)
      qed
    next
      case False
      with assms Inr Inl show ?thesis by (auto simp: reconcile_one_error)
    qed
  next
    case fi: (Inr fi)
    show ?thesis
    proof (cases "FileSize (heap s p) = Size s fi")
      case True
      with assms Inr fi show ?thesis by (simp add: reconcile_one_same_size)
    next
      case False
      show ?thesis
      proof
        assume "x = Return None"
        with assms show False
          unfolding reconcile_one_other_size [OF Inr fi False]
          by (simp add: after_Update_not_success)
      qed
    qed
  qed
qed

lemma same_world_refl: "same_world s s"
  by (simp add: same_world_def)

lemma same_world_trans: "same_world s s1 \<Longrightarrow> same_world s1 s2 \<Longrightarrow> same_world s s2"
  by (simp add: same_world_def)

lemma same_world_set: "same_world s (set_ReleaseState s p st)"
  by (simp add: same_world_def)

lemma getReleaseFilePath_cong:
  assumes "SoftwareName m' = SoftwareName m" and "Version m' = Version m"
  shows "getReleaseFilePath lib repoPath m' = getReleaseFilePath lib repoPath m"
  unfolding getReleaseFilePath_def assms ..

lemma same_world_stat:
  assumes "same_world s s'"
  shows "os_Stat s' path = os_Stat s path" and "Size s' n = Size s n"
    and "getReleaseFilePath lib repoPath (heap s' q) = getReleaseFilePath lib repoPath (heap s q)"
proof -
  show "os_Stat s' path = os_Stat s path"
    using assms by (simp add: same_world_def os_Stat_def)
  show "Size s' n = Size s n"
    using assms by (simp add: same_world_def Size_def split: node.splits)
  show "getReleaseFilePath lib repoPath (heap s' q) = getReleaseFilePath lib repoPath (heap s q)"
    using assms by (intro getReleaseFilePath_cong) (simp_all add: same_world_def)
qed

lemma in_sync_iff:
  "in_sync lib repoPath s p \<longleftrightarrow>
     (\<exists>path fi. getReleaseFilePath lib repoPath (heap s p) = Inr path \<and>
        os_Stat s path = Inr fi \<and> ReleaseState (heap s p) = ''available'' \<and>
        FileSize (heap s p) = Size s fi)"
  unfolding in_sync_def by (auto split: sum.splits)

lemma in_sync_set_available:
  assumes "in_sync lib repoPath s q"
  shows "in_sync lib repoPath (set_ReleaseState s p ''available'') q"
proof (cases "q = p")
  case True
  with assms show ?thesis
    unfolding in_sync_iff
    by (auto simp: getReleaseFilePath_cong [of "heap (set_ReleaseState s p ''available'') p" "heap s p"])
next
  case False
  with assms show ?thesis unfolding in_sync_iff by simp
qed

lemma in_sync_after_step:
  assumes "reconcile_one lib repoPath p s = Inr s'"
  shows "in_sync lib repoPath s' p"
proof -
  from reconcile_one_continues [OF assms] obtain path fi where
    "getReleaseFilePath lib repoPath (heap s p) = Inr path" "os_Stat s path = Inr fi"
    "FileSize (heap s p) = Size s fi" "s' = set_ReleaseState s p ''available''" by blast
  then show ?thesis
    unfolding in_sync_iff
    by (auto simp: getReleaseFilePath_cong [of "heap (set_ReleaseState s p ''available'') p" "heap s p"])
qed

lemma repairs_facts:
  assumes "repairs lib repoPath ps s = Some s'"
  shows "(\<forall>q \<in> set ps. in_sync lib repoPath s' q) \<and>
         (\<forall>q. in_sync lib repoPath s q \<longrightarrow> in_sync lib repoPath s' q) \<and>
         (\<forall>q. q \<notin> set ps \<longrightarrow> heap s' q = heap s q) \<and>
         same_world s s' \<and> dbfile s' = dbfile s"
  using assms
proof (induction ps arbitrary: s)
  case Nil
  then show ?case by (simp add: same_world_refl)
next
  case (Cons p ps)
  from Cons.prems obtain s1 where s1: "reconcile_one lib repoPath p s = Inr s1"
    and r: "repairs lib repoPath ps s1 = Some s'"
    by (auto split: sum.splits)
  from reconcile_one_continues [OF s1] have eq: "s1 = set_ReleaseState s p ''available''" by blast
  note ih = Cons.IH [OF r]
  have "in_sync lib repoPath s1 p" using s1 by (rule in_sync_after_step)
  with ih have a: "in_sync lib repoPath s' p" by blast
  have b: "in_sync lib repoPath s q \<Longrightarrow> in_sync lib repoPath s' q" for q
    using ih in_sync_set_available [of lib repoPath s q p] unfolding eq by blast
  have c: "q \<notin> set (p # ps) \<Longrightarrow> heap s' q = heap s q" for q
    using ih unfolding eq by simp
  have d: "same_world s s'"
    using ih same_world_set [of s p "''available''"] unfolding eq
    by (blast intro: same_world_trans)
  have e: "dbfile s' = dbfile s" using ih unfolding eq by simp
  from a b c d e ih show ?case by auto
qed

lemma reconcile_loop_abort:
  assumes "repairs lib repoPath pre s = Some s1"
    and "reconcile_one lib repoPath p s1 = Inl r"
  shows "reconcile_loop lib repoPath (pre @ p # post) s = r"
  using assms
proof (induction pre arbitrary: s)
  case Nil
  then show ?case by simp
next
  case (Cons a pre)
  from Cons.prems(1) obtain s2 where a: "reconcile_one lib repoPath a s = Inr s2"
    and r: "repairs lib repoPath pre s2 = Some s1"
    by (auto split: sum.splits)
  from Cons.IH [OF r Cons.prems(2)] a show ?case by simp
qed

lemma reconcile_loop_success:
  assumes "reconcile_loop lib repoPath ps s = (Return None, s')"
  shows "\<exists>s1. repairs lib repoPath ps s = Some s1 \<and> saveReleasesMetadata s1 = (Return None, s')"
  using assms
proof (induction ps arbitrary: s)
  case Nil
  then show ?case by simp
next
  case (Cons p ps)
  show ?case
  proof (cases "reconcile_one lib repoPath p s")
    case (Inl r)
    obtain x s2 where r: "r = (x, s2)" by (cases r)
    with Inl reconcile_one_leaves [of lib repoPath p s x s2] have "x \<noteq> Return None" by simp
    with Cons.prems Inl r show ?thesis by simp
  next
    case (Inr s1)
    with Cons.prems have "reconcile_loop lib repoPath ps s1 = (Return None, s')" by simp
    from Cons.IH [OF this] Inr show ?thesis by simp
  qed
qed

lemma set_range_values:
  "set (range_values m ks) = {y. \<exists>k \<in> set ks. m k = Some y}"
  unfolding range_values_def
  by (induction ks) (auto split: option.splits)

lemma set_all_releases:
  "set (all_releases s ns vs) =
     {p. \<exists>name \<in> set ns. \<exists>inner. releases s name = Some inner \<and>
           (\<exists>version \<in> set (vs name). inner version = Some p)}"
proof -
  have one: "set (case releases s name of None \<Rightarrow> []
                   | Some inner \<Rightarrow> range_values inner (vs name)) =
             {p. \<exists>inner. releases s name = Some inner \<and>
                   (\<exists>version \<in> set (vs name). inner version = Some p)}" for name
    by (cases "releases s name") (simp_all add: set_range_values)
  show ?thesis
    unfolding all_releases_def set_concat set_map image_image one by blast
qed

lemma listed_stored:
  assumes "p \<in> set (all_releases s ns vs)"
  shows "stored s p"
proof -
  from assms obtain name inner version where "releases s name = Some inner"
    and "inner version = Some p"
    unfolding set_all_releases by blast
  then have "lookup s (name, version) = Some p" by (simp add: lookup_def)
  then show ?thesis unfolding stored_def by blast
qed

lemma stored_listed:
  assumes "list_order s ns vs" and "lookup s (name, version) = Some p"
  shows "p \<in> set (all_releases s ns vs)"
proof -
  from assms(2) obtain inner where n: "releases s name = Some inner" and v: "inner version = Some p"
    by (auto simp: lookup_def split: option.splits)
  from assms(1) n have "name \<in> set ns" and "range_order inner (vs name)"
    by (auto simp: list_order_def range_order_def)
  with v have "version \<in> set (vs name)" by (auto simp: range_order_def)
  with n v \<open>name \<in> set ns\<close> show ?thesis
    unfolding set_all_releases by blast
qed

lemma lookup_cong: "releases s' = releases s \<Longrightarrow> lookup s' k = lookup s k"
  by (simp add: lookup_def)

lemma ListAll_Unlocked:
  "mu s = Unlocked \<Longrightarrow> ListAllReleasesMetadata s ns vs = Return (all_releases s ns vs)"
  by (simp add: ListAllReleasesMetadata_def RLock_def)

lemma Reconcile_Unlocked:
  "mu s = Unlocked \<Longrightarrow>
   ReconcileReleases lib repoPath ns vs s = reconcile_loop lib repoPath (all_releases s ns vs) s"
  by (simp add: ReconcileReleases_def ListAll_Unlocked)

lemma Reconcile_WriteLocked:
  "mu s = WriteLocked \<Longrightarrow> ReconcileReleases lib repoPath ns vs s = (Blocked, s)"
  by (simp add: ReconcileReleases_def reads_WriteLocked)

lemma save_success:
  assumes "saveReleasesMetadata s = (Return None, s')"
  shows "mu s = Unlocked" and "s' = s\<lparr>dbfile := Records (snapshot s)\<rparr>"
    and "\<not> deny s SysCreate (filepath s)" and "\<not> deny s SysWrite (filepath s)"
  using assms
  by (cases "mu s"; simp add: saveReleasesMetadata_def RLock_def RUnlock_def Let_def split: if_splits)+

lemma save_again:
  assumes "saveReleasesMetadata s = (Return None, s')"
  shows "saveReleasesMetadata s' = (Return None, s')"
proof -
  note f = save_success [OF assms]
  have "snapshot s' = snapshot s"
    unfolding f(2) by (simp add: snapshot_def lookup_def fun_eq_iff)
  with f show ?thesis
    by (simp add: saveReleasesMetadata_def RLock_def RUnlock_def Let_def)
qed

text \<open>
  C2 (as the code has it). A pass of \<open>ReconcileReleases\<close> stops at the first record whose
  \<open>os.Stat\<close> fails with an unexpected error and returns that error, wrapped. It does
  not undo anything: the state it leaves is the state after the repairs of the records
  visited before, which agree with their files from then on; the records not yet visited
  are as they were.
\<close>

theorem reconcile_aborts_at_stat_error:
  assumes "mu s = Unlocked"
    and "all_releases s ns vs = pre @ p # post"
    and "repairs lib repoPath pre s = Some s1"
    and "getReleaseFilePath lib repoPath (heap s p) = Inr path"
    and "os_Stat s path = Inl err" and "\<not> os_IsNotExist err"
  shows "ReconcileReleases lib repoPath ns vs s =
           (Return (Some (Wrap ''error checking release file during reconciliation for %s %s'' err)), s1) \<and>
         (\<forall>q \<in> set pre. in_sync lib repoPath s1 q) \<and>
         (\<forall>q. q \<notin> set pre \<longrightarrow> heap s1 q = heap s q)"
proof -
  note f = repairs_facts [OF assms(3)]
  from f have sw: "same_world s s1" by blast
  note eqs = same_world_stat [OF sw]
  have path': "getReleaseFilePath lib repoPath (heap s1 p) = Inr path"
    using assms(4) by (simp only: eqs)
  have stat': "os_Stat s1 path = Inl err" using assms(5) by (simp only: eqs)
  have "reconcile_one lib repoPath p s1 =
          Inl (Return (Some (Wrap ''error checking release file during reconciliation for %s %s'' err)), s1)"
    using path' stat' assms(6) by (rule reconcile_one_error)
  with assms(3) have "reconcile_loop lib repoPath (pre @ p # post) s =
          (Return (Some (Wrap ''error checking release file during reconciliation for %s %s'' err)), s1)"
    by (rule reconcile_loop_abort)
  then have "ReconcileReleases lib repoPath ns vs s =
          (Return (Some (Wrap ''error checking release file during reconciliation for %s %s'' err)), s1)"
    by (simp add: Reconcile_Unlocked [OF assms(1)] assms(2))
  with f show ?thesis by blast
qed

lemma generateSoftwareIDFromName_b: "generateSoftwareIDFromName ascii_lib ''b'' = 98"
  by (simp add: generateSoftwareIDFromName_def ascii_lib_def)

lemma fmt_06d_98: "fmt_06d 98 = ''000098''"
  by (simp add: fmt_06d_def decimal.simps digit_char_def replicate_small)

lemma sanitizeFilename_b: "sanitizeFilename ascii_lib ''b'' = ''b''"
  by (simp add: sanitizeFilename_def ascii_lib_def ascii_lower_def)

lemma Split_100: "Split ''1.0.0'' CHR ''.'' = [''1'', ''0'', ''0'']"
  by simp

lemma path_of_a:
  "getReleaseFilePath ascii_lib ''repo'' (release ''a'' ''1.0.0'' st sz) = Inr path_a"
  by (simp add: getReleaseFilePath_def index_def getSoftwareDirPath_def path_a_def
      generateSoftwareIDFromName_a fmt_06d_97 fmt_02s_ascii_1 sanitizeFilename_a)
     (simp add: ascii_lib_def)

lemma path_of_b:
  "getReleaseFilePath ascii_lib ''repo'' (release ''b'' ''1.0.0'' st sz) = Inr path_b"
  by (simp add: getReleaseFilePath_def index_def getSoftwareDirPath_def path_b_def
      generateSoftwareIDFromName_b fmt_06d_98 fmt_02s_ascii_1 sanitizeFilename_b)
     (simp add: ascii_lib_def)

lemma two_store_fields:
  "mu two_store = Unlocked"
  "releases two_store = [''a'' \<mapsto> [''1.0.0'' \<mapsto> 0], ''b'' \<mapsto> [''1.0.0'' \<mapsto> 2]]"
  "heap two_store 0 = release ''a'' ''1.0.0'' ''unavailable'' 1024"
  "heap two_store 2 = release ''b'' ''1.0.0'' ''available'' 10"
  "nodes two_store = [path_a \<mapsto> RegularFile 1024]"
  "deny two_store c n = (c = SysStat \<and> n = path_b)"
  by (simp_all add: two_store_def)

lemma path_a_b: "path_a \<noteq> path_b"
  by (simp add: path_a_def path_b_def)

lemma two_store_stat:
  "os_Stat two_store path_a = Inr (RegularFile 1024)"
  "os_Stat two_store path_b = Inl (PathError SysStat path_b ErrOther)"
  by (simp_all add: os_Stat_def two_store_fields path_a_b)

lemma two_store_list:
  "all_releases two_store [''a'', ''b''] (\<lambda>n. [''1.0.0'']) = [0, 2]"
  "all_releases two_store [''b'', ''a''] (\<lambda>n. [''1.0.0'']) = [2, 0]"
  by (simp_all add: all_releases_def range_values_def two_store_fields)

lemma two_store_step_a:
  "reconcile_one ascii_lib ''repo'' 0 two_store = Inr (set_ReleaseState two_store 0 ''available'')"
  by (rule reconcile_one_same_size [where path = path_a and fi = "RegularFile 1024"])
     (simp_all add: two_store_fields path_of_a two_store_stat Size_def)

lemma two_store_repairs:
  "repairs ascii_lib ''repo'' [0] two_store = Some (set_ReleaseState two_store 0 ''available'')"
  by (simp add: two_store_step_a)

lemma not_IsNotExist_other: "\<not> os_IsNotExist (PathError c n ErrOther)"
  by (simp add: os_IsNotExist_def)

theorem reconcile_aborts_at_stat_error_witness:
  "ReconcileReleases ascii_lib ''repo'' [''a'', ''b''] (\<lambda>n. [''1.0.0'']) two_store =
     (Return (Some (Wrap ''error checking release file during reconciliation for %s %s''
                      (PathError SysStat path_b ErrOther))),
      set_ReleaseState two_store 0 ''available'')"
proof -
  have l: "all_releases two_store [''a'', ''b''] (\<lambda>n. [''1.0.0'']) = [0] @ 2 # []"
    by (simp add: two_store_list)
  have p: "getReleaseFilePath ascii_lib ''repo'' (heap two_store 2) = Inr path_b"
    by (simp add: two_store_fields path_of_b)
  from reconcile_aborts_at_stat_error [OF two_store_fields(1) l two_store_repairs p
      two_store_stat(2) not_IsNotExist_other]
  show ?thesis by (rule conjunct1)
qed

text \<open>The claim as worded fails on \<open>two_store\<close> when the loop visits \<open>a\<close> before \<open>b\<close>: the
  pass returns the error of \<open>os.Stat\<close> on the file of \<open>b\<close>, and the record of \<open>a\<close>, which
  said \<open>unavailable\<close> before the pass, says \<open>available\<close> after it. The store is not left
  as it was.\<close>

theorem reconcile_all_or_nothing_counterexample:
  "fst (ReconcileReleases ascii_lib ''repo'' [''a'', ''b''] (\<lambda>n. [''1.0.0'']) two_store) =
     Return (Some (Wrap ''error checking release file during reconciliation for %s %s''
                     (PathError SysStat path_b ErrOther))) \<and>
   ReleaseState (heap two_store 0) = ''unavailable'' \<and>
   ReleaseState (heap (snd (ReconcileReleases ascii_lib ''repo'' [''a'', ''b''] (\<lambda>n. [''1.0.0''])
                              two_store)) 0) = ''available''"
proof -
  have s1: "reconcile_one ascii_lib ''repo'' 2 (set_ReleaseState two_store 0 ''available'') =
        Inl (Return (Some (Wrap ''error checking release file during reconciliation for %s %s''
                             (PathError SysStat path_b ErrOther))),
             set_ReleaseState two_store 0 ''available'')"
    by (rule reconcile_one_error [where path = path_b])
       (simp_all add: two_store_fields path_of_b two_store_stat not_IsNotExist_other)
  have "ReconcileReleases ascii_lib ''repo'' [''a'', ''b''] (\<lambda>n. [''1.0.0'']) two_store =
     (Return (Some (Wrap ''error checking release file during reconciliation for %s %s''
                      (PathError SysStat path_b ErrOther))),
      set_ReleaseState two_store 0 ''available'')"
    by (simp add: Reconcile_Unlocked two_store_fields(1) two_store_list two_store_step_a s1)
  then show ?thesis by (simp add: two_store_fields)
qed

lemma reconcile_one_fixed:
  assumes "in_sync lib repoPath s p"
  shows "reconcile_one lib repoPath p s = Inr s"
proof -
  from assms obtain path fi where a: "getReleaseFilePath lib repoPath (heap s p) = Inr path"
    and b: "os_Stat s path = Inr fi" and c: "ReleaseState (heap s p) = ''available''"
    and d: "FileSize (heap s p) = Size s fi"
    unfolding in_sync_iff by blast
  show ?thesis
    by (simp add: reconcile_one_same_size [OF a b d] set_ReleaseState_same [OF c])
qed

lemma reconcile_loop_fixed:
  assumes "\<forall>p \<in> set ps. reconcile_one lib repoPath p s = Inr s"
    and "saveReleasesMetadata s = (Return None, s)"
  shows "reconcile_loop lib repoPath ps s = (Return None, s)"
  using assms by (induction ps) simp_all

lemma stat_dbfile:
  "os_Stat (s\<lparr>dbfile := x\<rparr>) path = os_Stat s path"
  "Size (s\<lparr>dbfile := x\<rparr>) n = Size s n"
  by (simp_all add: os_Stat_def Size_def split: node.splits)

lemma in_sync_dbfile:
  "in_sync lib repoPath (s\<lparr>dbfile := x\<rparr>) p = in_sync lib repoPath s p"
  unfolding in_sync_iff by (simp add: stat_dbfile)

text \<open>
  C3 (as the code has it). After a pass of \<open>ReconcileReleases\<close> that has returned without
  error, a second pass over the same file system, in whatever order its loops visit the
  maps, returns without error and leaves the whole state as it is: no record changes,
  and the metadata file holds what it held.
\<close>

theorem reconcile_idempotent:
  assumes "ReconcileReleases lib repoPath ns vs s = (Return None, s')"
    and "list_order s ns vs"
  shows "ReconcileReleases lib repoPath ns' vs' s' = (Return None, s')"
proof -
  have mu: "mu s = Unlocked"
  proof (rule ccontr)
    assume "mu s \<noteq> Unlocked"
    then have "mu s = WriteLocked" by (cases "mu s") simp_all
    with assms(1) show False by (simp add: Reconcile_WriteLocked)
  qed
  let ?L = "all_releases s ns vs"
  from assms(1) have "reconcile_loop lib repoPath ?L s = (Return None, s')"
    by (simp add: Reconcile_Unlocked [OF mu])
  then obtain s1 where rep: "repairs lib repoPath ?L s = Some s1"
    and sv: "saveReleasesMetadata s1 = (Return None, s')"
    by (blast dest: reconcile_loop_success)
  note f = repairs_facts [OF rep]
  note g = save_success [OF sv]
  have mu': "mu s' = Unlocked" unfolding g(2) using g(1) by simp
  have rel: "releases s' = releases s"
    using f unfolding g(2) by (simp add: same_world_def)
  have save': "saveReleasesMetadata s' = (Return None, s')"
    using sv by (rule save_again)
  have fixed: "reconcile_one lib repoPath p s' = Inr s'"
    if "p \<in> set (all_releases s' ns' vs')" for p
  proof -
    from that have "stored s' p" by (rule listed_stored)
    then obtain name version where "lookup s' (name, version) = Some p"
      unfolding stored_def by auto
    then have "lookup s (name, version) = Some p" by (simp only: lookup_cong [OF rel])
    with assms(2) have "p \<in> set ?L" by (rule stored_listed)
    with f have "in_sync lib repoPath s1 p" by blast
    then have "in_sync lib repoPath s' p" unfolding g(2) by (simp add: in_sync_dbfile)
    then show ?thesis by (rule reconcile_one_fixed)
  qed
  have "\<forall>p \<in> set (all_releases s' ns' vs'). reconcile_one lib repoPath p s' = Inr s'"
    using fixed by blast
  then have "reconcile_loop lib repoPath (all_releases s' ns' vs') s' = (Return None, s')"
    using save' by (rule reconcile_loop_fixed)
  then show ?thesis by (simp add: Reconcile_Unlocked [OF mu'])
qed

lemma one_store_fields:
  "mu one_store = Unlocked"
  "releases one_store = [''a'' \<mapsto> [''1.0.0'' \<mapsto> 0]]"
  "heap one_store p = release ''a'' ''1.0.0'' ''unavailable'' 1024"
  "nodes one_store = [path_a \<mapsto> RegularFile 1024]"
  "deny one_store c n = False"
  "filepath one_store = ''db.json''"
  by (simp_all add: one_store_def)

lemma one_store_pass:
  "ReconcileReleases ascii_lib ''repo'' [''a''] (\<lambda>n. [''1.0.0'']) one_store =
     (Return None,
      (set_ReleaseState one_store 0 ''available'')
        \<lparr>dbfile := Records (snapshot (set_ReleaseState one_store 0 ''available''))\<rparr>)"
proof -
  have l: "all_releases one_store [''a''] (\<lambda>n. [''1.0.0'']) = [0]"
    by (simp add: all_releases_def range_values_def one_store_fields)
  have st: "os_Stat one_store path_a = Inr (RegularFile 1024)"
    by (simp add: os_Stat_def one_store_fields)
  have step: "reconcile_one ascii_lib ''repo'' 0 one_store =
      Inr (set_ReleaseState one_store 0 ''available'')"
    by (rule reconcile_one_same_size [where path = path_a and fi = "RegularFile 1024"])
       (simp_all add: one_store_fields path_of_a st Size_def)
  have sv: "saveReleasesMetadata (set_ReleaseState one_store 0 ''available'') =
      (Return None, (set_ReleaseState one_store 0 ''available'')
        \<lparr>dbfile := Records (snapshot (set_ReleaseState one_store 0 ''available''))\<rparr>)"
    by (simp add: saveReleasesMetadata_def RLock_def RUnlock_def Let_def one_store_fields)
  show ?thesis
    by (simp add: Reconcile_Unlocked one_store_fields(1) l step sv)
qed

lemma one_store_order: "list_order one_store [''a''] (\<lambda>n. [''1.0.0''])"
  by (auto simp: list_order_def range_order_def one_store_fields split: if_splits)

theorem reconcile_idempotent_witness:
  "ReconcileReleases ascii_lib ''repo'' [''a''] (\<lambda>n. [''1.0.0''])
     (snd (ReconcileReleases ascii_lib ''repo'' [''a''] (\<lambda>n. [''1.0.0'']) one_store)) =
   (Return None, snd (ReconcileReleases ascii_lib ''repo'' [''a''] (\<lambda>n. [''1.0.0'']) one_store))"
  using reconcile_idempotent [OF one_store_pass one_store_order, of "[''a'']" "\<lambda>n. [''1.0.0'']"]
  by (simp add: one_store_pass)

text \<open>The claim as worded, for every state, fails on \<open>two_store\<close>. A first pass that visits
  \<open>b\<close> before \<open>a\<close> returns the error of \<open>os.Stat\<close> at once and changes nothing. A second
  pass over the same file system, which happens to visit \<open>a\<close> first, writes \<open>available\<close>
  into the record of \<open>a\<close> before it returns the same error.\<close>

theorem reconcile_idempotent_counterexample:
  "ReconcileReleases ascii_lib ''repo'' [''b'', ''a''] (\<lambda>n. [''1.0.0'']) two_store =
     (Return (Some (Wrap ''error checking release file during reconciliation for %s %s''
                      (PathError SysStat path_b ErrOther))), two_store) \<and>
   ReleaseState (heap two_store 0) = ''unavailable'' \<and>
   ReleaseState (heap (snd (ReconcileReleases ascii_lib ''repo'' [''a'', ''b''] (\<lambda>n. [''1.0.0''])
                              two_store)) 0) = ''available''"
proof -
  have s0: "reconcile_one ascii_lib ''repo'' 2 two_store =
        Inl (Return (Some (Wrap ''error checking release file during reconciliation for %s %s''
                             (PathError SysStat path_b ErrOther))), two_store)"
    by (rule reconcile_one_error [where path = path_b])
       (simp_all add: two_store_fields path_of_b two_store_stat not_IsNotExist_other)
  have s1: "reconcile_one ascii_lib ''repo'' 2 (set_ReleaseState two_store 0 ''available'') =
        Inl (Return (Some (Wrap ''error checking release file during reconciliation for %s %s''
                             (PathError SysStat path_b ErrOther))),
             set_ReleaseState two_store 0 ''available'')"
    by (rule reconcile_one_error [where path = path_b])
       (simp_all add: two_store_fields path_of_b two_store_stat not_IsNotExist_other)
  have first: "ReconcileReleases ascii_lib ''repo'' [''b'', ''a''] (\<lambda>n. [''1.0.0'']) two_store =
     (Return (Some (Wrap ''error checking release file during reconciliation for %s %s''
                      (PathError SysStat path_b ErrOther))), two_store)"
    by (simp add: Reconcile_Unlocked two_store_fields(1) two_store_list s0)
  have second: "ReconcileReleases ascii_lib ''repo'' [''a'', ''b''] (\<lambda>n. [''1.0.0'']) two_store =
     (Return (Some (Wrap ''error checking release file during reconciliation for %s %s''
                      (PathError SysStat path_b ErrOther))),
      set_ReleaseState two_store 0 ''available'')"
    by (simp add: Reconcile_Unlocked two_store_fields(1) two_store_list two_store_step_a s1)
  show ?thesis by (simp add: first second two_store_fields)
qed

lemma Update_blocks:
  assumes "mu s = Unlocked"
    and "lookup s (SoftwareName (heap s p), Version (heap s p)) = Some q"
  obtains s' where "UpdateReleaseMetadata s p = (Blocked, s')" and "mu s' = WriteLocked"
    and "dbfile s' = dbfile s" and "heap s' = heap s"
proof -
  from assms(2) obtain inner where "releases s (SoftwareName (heap s p)) = Some inner"
    by (auto simp: lookup_def split: option.splits)
  with assms have "UpdateReleaseMetadata s p =
      (Blocked, put (s\<lparr>mu := WriteLocked\<rparr>) (SoftwareName (heap s p)) (Version (heap s p)) p)"
    by (simp add: Update_result)
  then show ?thesis by (rule that) simp_all
qed

lemma repairs_FileSize:
  "repairs lib repoPath ps s = Some s' \<Longrightarrow> FileSize (heap s' q) = FileSize (heap s q)"
proof (induction ps arbitrary: s)
  case Nil
  then show ?case by simp
next
  case (Cons p ps)
  from Cons.prems obtain s1 where s1: "reconcile_one lib repoPath p s = Inr s1"
    and r: "repairs lib repoPath ps s1 = Some s'"
    by (auto split: sum.splits)
  from reconcile_one_continues [OF s1] have eq: "s1 = set_ReleaseState s p ''available''" by blast
  from Cons.IH [OF r] show ?case unfolding eq by simp
qed

lemma reconcile_one_drift:
  assumes "mu s = Unlocked"
    and "lookup s (SoftwareName (heap s p), Version (heap s p)) = Some q"
    and "getReleaseFilePath lib repoPath (heap s p) = Inr path"
    and "(\<exists>err. os_Stat s path = Inl err \<and> os_IsNotExist err) \<or>
         (\<exists>fi. os_Stat s path = Inr fi \<and> FileSize (heap s p) \<noteq> Size s fi)"
  obtains s' where "reconcile_one lib repoPath p s = Inl (Blocked, s')"
    and "mu s' = WriteLocked" and "dbfile s' = dbfile s"
    and "\<And>err. os_Stat s path = Inl err \<Longrightarrow> ReleaseState (heap s' p) = ''unavailable''"
    and "\<And>fi. os_Stat s path = Inr fi \<Longrightarrow>
           ReleaseState (heap s' p) = ''available'' \<and> FileSize (heap s' p) = Size s fi"
  using assms(4)
proof (elim disjE exE conjE)
  fix err assume st: "os_Stat s path = Inl err" and ne: "os_IsNotExist err"
  let ?s1 = "set_ReleaseState s p ''unavailable''"
  have "mu ?s1 = Unlocked" using assms(1) by simp
  moreover have "lookup ?s1 (SoftwareName (heap ?s1 p), Version (heap ?s1 p)) = Some q"
    using assms(2) by simp
  ultimately obtain s' where u: "UpdateReleaseMetadata ?s1 p = (Blocked, s')"
    and m: "mu s' = WriteLocked" and d: "dbfile s' = dbfile ?s1" and h: "heap s' = heap ?s1"
    by (rule Update_blocks)
  have "reconcile_one lib repoPath p s = Inl (Blocked, s')"
    by (simp add: reconcile_one_absent [OF assms(3) st ne] u)
  then show ?thesis
    using m d h st by (intro that [of s']) simp_all
next
  fix fi assume st: "os_Stat s path = Inr fi" and sz: "FileSize (heap s p) \<noteq> Size s fi"
  let ?s2 = "set_FileSize (set_ReleaseState s p ''available'') p (Size s fi)"
  have "mu ?s2 = Unlocked" using assms(1) by simp
  moreover have "lookup ?s2 (SoftwareName (heap ?s2 p), Version (heap ?s2 p)) = Some q"
    using assms(2) by simp
  ultimately obtain s' where u: "UpdateReleaseMetadata ?s2 p = (Blocked, s')"
    and m: "mu s' = WriteLocked" and d: "dbfile s' = dbfile ?s2" and h: "heap s' = heap ?s2"
    by (rule Update_blocks)
  have "reconcile_one lib repoPath p s = Inl (Blocked, s')"
    by (simp add: reconcile_one_other_size [OF assms(3) st sz] u)
  then show ?thesis
    using m d h st by (intro that [of s']) simp_all
qed

text \<open>
  C4, on the code. Where a record of the store has drifted, its file absent or of another
  size than recorded, the pass writes the new state (and size) into the record in memory
  and calls \<open>UpdateReleaseMetadata\<close>, which takes the write lock and calls
  \<open>saveReleasesMetadata\<close>, which waits for the read lock of the same mutex.
  \<open>ReconcileReleases\<close> never returns: the repair is not written to the metadata file, the
  write lock stays held, and nobody can read the repaired record, since every later
  \<open>GetReleaseMetadata\<close> waits for ever.
\<close>

theorem reconcile_blocks_on_drift:
  assumes "mu s = Unlocked"
    and "all_releases s ns vs = pre @ p # post"
    and "repairs lib repoPath pre s = Some s1"
    and "lookup s (SoftwareName (heap s p), Version (heap s p)) = Some p"
    and "getReleaseFilePath lib repoPath (heap s p) = Inr path"
    and "(\<exists>err. os_Stat s path = Inl err \<and> os_IsNotExist err) \<or>
         (\<exists>fi. os_Stat s path = Inr fi \<and> FileSize (heap s p) \<noteq> Size s fi)"
  shows "fst (ReconcileReleases lib repoPath ns vs s) = Blocked \<and>
         mu (snd (ReconcileReleases lib repoPath ns vs s)) = WriteLocked \<and>
         dbfile (snd (ReconcileReleases lib repoPath ns vs s)) = dbfile s \<and>
         (\<forall>n v. GetReleaseMetadata (snd (ReconcileReleases lib repoPath ns vs s)) n v = Blocked)"
proof -
  note f = repairs_facts [OF assms(3)]
  from f have sw: "same_world s s1" and db: "dbfile s1 = dbfile s" by blast+
  note eqs = same_world_stat [OF sw]
  have mu1: "mu s1 = Unlocked" using sw assms(1) by (simp add: same_world_def)
  have names: "SoftwareName (heap s1 p) = SoftwareName (heap s p)"
    "Version (heap s1 p) = Version (heap s p)"
    using sw by (simp_all add: same_world_def)
  have rel: "releases s1 = releases s" using sw by (simp add: same_world_def)
  have lk: "lookup s1 (SoftwareName (heap s1 p), Version (heap s1 p)) = Some p"
    using assms(4) by (simp only: names lookup_cong [OF rel])
  have path': "getReleaseFilePath lib repoPath (heap s1 p) = Inr path"
    using assms(5) by (simp only: eqs)
  have drift: "(\<exists>err. os_Stat s1 path = Inl err \<and> os_IsNotExist err) \<or>
         (\<exists>fi. os_Stat s1 path = Inr fi \<and> FileSize (heap s1 p) \<noteq> Size s1 fi)"
    using assms(6) by (simp only: eqs repairs_FileSize [OF assms(3)])
  from mu1 lk path' drift obtain s' where
    one: "reconcile_one lib repoPath p s1 = Inl (Blocked, s')"
    and m: "mu s' = WriteLocked" and d: "dbfile s' = dbfile s1"
    by (rule reconcile_one_drift)
  from assms(3) one have "reconcile_loop lib repoPath (pre @ p # post) s = (Blocked, s')"
    by (rule reconcile_loop_abort)
  then have r: "ReconcileReleases lib repoPath ns vs s = (Blocked, s')"
    by (simp add: Reconcile_Unlocked [OF assms(1)] assms(2))
  show ?thesis
    unfolding r using m d db reads_WriteLocked(1) [OF m] by simp
qed

theorem reconcile_blocks_on_drift_witness:
  "fst (ReconcileReleases ascii_lib ''repo'' [''acme''] (\<lambda>n. [''1.0.0'']) acme_store) = Blocked \<and>
   dbfile (snd (ReconcileReleases ascii_lib ''repo'' [''acme''] (\<lambda>n. [''1.0.0'']) acme_store)) =
     NoFile \<and>
   GetReleaseMetadata (snd (ReconcileReleases ascii_lib ''repo'' [''acme''] (\<lambda>n. [''1.0.0''])
                              acme_store)) ''acme'' ''1.0.0'' = Blocked"
proof -
  have l: "all_releases acme_store [''acme''] (\<lambda>n. [''1.0.0'']) = [] @ 0 # []"
    by (simp add: all_releases_def range_values_def acme_store_fields)
  have r: "repairs ascii_lib ''repo'' [] acme_store = Some acme_store" by simp
  have k: "lookup acme_store (SoftwareName (heap acme_store 0), Version (heap acme_store 0)) = Some 0"
    by (simp add: lookup_def acme_store_fields)
  have "2 \<le> count_list (Version (heap acme_store 0)) CHR ''.''"
    by (simp add: acme_store_fields)
  then obtain path where p: "getReleaseFilePath ascii_lib ''repo'' (heap acme_store 0) = Inr path"
    using getReleaseFilePath_total by blast
  have "os_Stat acme_store path = Inl (PathError SysStat path ErrNotExist)"
    by (simp add: os_Stat_def acme_store_fields)
  moreover have "os_IsNotExist (PathError SysStat path ErrNotExist)"
    by (simp add: os_IsNotExist_def)
  ultimately have d: "(\<exists>err. os_Stat acme_store path = Inl err \<and> os_IsNotExist err) \<or>
         (\<exists>fi. os_Stat acme_store path = Inr fi \<and> FileSize (heap acme_store 0) \<noteq> Size acme_store fi)"
    by blast
  from reconcile_blocks_on_drift [OF acme_store_fields(1) l r k p d]
  show ?thesis by (simp add: acme_store_fields)
qed

section \<open>Uploading a release\<close>

lemma Create_new_key:
  assumes "mu s = Unlocked"
    and "lookup s (SoftwareName (heap s p), Version (heap s p)) = None"
  shows "fst (CreateReleaseMetadata s p) = Blocked"
proof (cases "releases s (SoftwareName (heap s p))")
  case None
  then show ?thesis
    using assms(1)
    by (simp add: CreateReleaseMetadata_def Lock_Unlocked Let_def lookup_def deferred_Unlock_def
        save_WriteLocked)
next
  case (Some inner)
  with assms(2) have "inner (Version (heap s p)) = None" by (simp add: lookup_def)
  with Some show ?thesis
    using assms(1)
    by (simp add: CreateReleaseMetadata_def Lock_Unlocked Let_def lookup_def deferred_Unlock_def
        save_WriteLocked)
qed

lemma Create_fails:
  assumes "CreateReleaseMetadata s p = (Return (Some err), s')"
  shows "err = AlreadyExists (SoftwareName (heap s p)) (Version (heap s p)) \<and> s' = s"
proof (cases "mu s")
  case WriteLocked
  with assms show ?thesis by (simp add: Create_WriteLocked)
next
  case Unlocked
  show ?thesis
  proof (cases "lookup s (SoftwareName (heap s p), Version (heap s p))")
    case (Some q)
    then obtain inner where "releases s (SoftwareName (heap s p)) = Some inner"
      and "inner (Version (heap s p)) = Some q"
      by (auto simp: lookup_def split: option.splits)
    from Create_existing [OF Unlocked this] assms show ?thesis by simp
  next
    case None
    from Create_new_key [OF Unlocked None] assms show ?thesis by simp
  qed
qed

lemma heap_os_Create: "heap (snd (os_Create s name)) = heap s"
  by (simp add: os_Create_def split: option.splits node.splits)

lemma heap_io_Copy: "heap (snd (io_Copy s dst src)) = heap s"
  by (simp add: io_Copy_def split: option.splits node.splits)

lemma heap_copyFile: "heap (snd (copyFile s src dst)) = heap s"
proof (cases "os_Open s src")
  case (Some err)
  then show ?thesis by (simp add: copyFile_def)
next
  case None
  obtain e1 s1 where c: "os_Create s dst = (e1, s1)" by (cases "os_Create s dst")
  with heap_os_Create [of s dst] have h1: "heap s1 = heap s" by simp
  obtain e2 s2 where i: "io_Copy s1 dst src = (e2, s2)" by (cases "io_Copy s1 dst src")
  with heap_io_Copy [of s1 dst src] have h2: "heap s2 = heap s1" by simp
  show ?thesis
    using None c i h1 h2 by (cases e1; cases e2) (simp_all add: copyFile_def)
qed

lemma UploadRelease_create_failed:
  assumes "StoreReleaseFile lib repoPath tgzFilePath p
             (s\<lparr>heap := (heap s)(p := md\<lparr>ReleaseTimestamp := now\<rparr>)\<rparr>) = (Return (Inr dest), s1)"
    and "os_Stat s1 dest = Inr fi"
    and "CreateReleaseMetadata
           (set_ReleaseState (set_FileSize s1 p (Size s1 fi)) p ''available'') p =
         (Return (Some err), s3)"
  shows "UploadRelease lib repoPath now tgzFilePath md p s =
           (Return (Some (Wrap ''failed to create release metadata and rollback file storage'' err)),
            snd (os_Remove s3 dest))"
  using assms by (simp add: UploadRelease_def Let_def)

text \<open>
  C1 (as the code has it). When the archive has been placed and \<open>CreateReleaseMetadata\<close>
  then fails, which it does for a release that is already in the store, \<open>UploadRelease\<close>
  calls \<open>os.Remove\<close> on the file it has just placed and returns the error of the create,
  wrapped. What \<open>os.Remove\<close> answers is dropped: the caller gets the same, the error of
  the create alone, whether the file has been deleted or the deletion has failed.
\<close>

theorem upload_rollback:
  assumes "StoreReleaseFile lib repoPath tgzFilePath p
             (s\<lparr>heap := (heap s)(p := md\<lparr>ReleaseTimestamp := now\<rparr>)\<rparr>) = (Return (Inr dest), s1)"
    and "os_Stat s1 dest = Inr fi"
    and "CreateReleaseMetadata
           (set_ReleaseState (set_FileSize s1 p (Size s1 fi)) p ''available'') p =
         (Return (Some err), s3)"
  shows "UploadRelease lib repoPath now tgzFilePath md p s =
           (Return (Some (Wrap ''failed to create release metadata and rollback file storage'' err)),
            snd (os_Remove s3 dest)) \<and>
         err = AlreadyExists (SoftwareName md) (Version md) \<and>
         (if deny s3 SysRemove dest
          then fst (os_Remove s3 dest) = Some (PathError SysRemove dest ErrOther) \<and>
               snd (os_Remove s3 dest) = s3
          else nodes (snd (os_Remove s3 dest)) dest = None)"
proof -
  let ?s2 = "set_ReleaseState (set_FileSize s1 p (Size s1 fi)) p ''available''"
  have up: "UploadRelease lib repoPath now tgzFilePath md p s =
           (Return (Some (Wrap ''failed to create release metadata and rollback file storage'' err)),
            snd (os_Remove s3 dest))"
    using assms by (rule UploadRelease_create_failed)
  have h1: "heap s1 p = md\<lparr>ReleaseTimestamp := now\<rparr>"
  proof -
    let ?s0 = "s\<lparr>heap := (heap s)(p := md\<lparr>ReleaseTimestamp := now\<rparr>)\<rparr>"
    have e: "heap (snd (EnsureReleaseDirExists lib repoPath n ?s0)) = heap ?s0" for n
      by (rule heap_EnsureReleaseDirExists)
    have c: "heap (snd (copyFile t src dst)) = heap t" for t src dst
      by (rule heap_copyFile)
    obtain e1 t1 where E: "EnsureReleaseDirExists lib repoPath (SoftwareName (heap ?s0 p)) ?s0 = (e1, t1)"
      by (cases "EnsureReleaseDirExists lib repoPath (SoftwareName (heap ?s0 p)) ?s0")
    with e [of "SoftwareName (heap ?s0 p)"] have t1: "heap t1 = heap ?s0" by simp
    from assms(1) E obtain d where "copyFile t1 tgzFilePath d = (None, s1)"
      unfolding StoreReleaseFile_def
      by (auto split: option.splits sum.splits prod.splits)
    with c [of t1 tgzFilePath d] have "heap s1 = heap t1" by simp
    with t1 show ?thesis by simp
  qed
  from Create_fails [OF assms(3)]
  have err: "err = AlreadyExists (SoftwareName (heap ?s2 p)) (Version (heap ?s2 p))" by blast
  have "err = AlreadyExists (SoftwareName md) (Version md)"
    unfolding err by (simp add: h1)
  moreover have "if deny s3 SysRemove dest
          then fst (os_Remove s3 dest) = Some (PathError SysRemove dest ErrOther) \<and>
               snd (os_Remove s3 dest) = s3
          else nodes (snd (os_Remove s3 dest)) dest = None"
    by (simp add: os_Remove_def split: option.splits)
  ultimately show ?thesis using up by blast
qed

lemma generateSoftwareIDFromName_acme: "generateSoftwareIDFromName ascii_lib ''acme'' = 891194"
  by (simp add: generateSoftwareIDFromName_def ascii_lib_def)

lemma fmt_06d_acme: "fmt_06d 891194 = ''891194''"
  by (simp add: fmt_06d_def decimal.simps digit_char_def)

lemma sanitizeFilename_acme: "sanitizeFilename ascii_lib ''acme'' = ''acme''"
  by (simp add: sanitizeFilename_def ascii_lib_def ascii_lower_def)

lemma dir_of_acme: "getSoftwareDirPath ascii_lib ''repo'' ''acme'' = acme_dir"
  by (simp add: getSoftwareDirPath_def generateSoftwareIDFromName_acme fmt_06d_acme
      sanitizeFilename_acme acme_dir_def)
     (simp add: ascii_lib_def)

lemma path_of_acme:
  "SoftwareName m = ''acme'' \<Longrightarrow> Version m = ''1.0.0'' \<Longrightarrow>
   getReleaseFilePath ascii_lib ''repo'' m = Inr acme_path"
  by (simp add: getReleaseFilePath_def index_def getSoftwareDirPath_def acme_path_def
      generateSoftwareIDFromName_acme fmt_06d_acme fmt_02s_ascii_1 sanitizeFilename_acme)
     (simp add: ascii_lib_def)

lemma acme_paths:
  "acme_dir \<noteq> acme_path" "acme_path \<noteq> ''x.tgz''" "acme_dir \<noteq> ''x.tgz''"
  "acme_path \<noteq> acme_dir" "''x.tgz'' \<noteq> acme_path" "''x.tgz'' \<noteq> acme_dir"
  by (simp_all add: acme_dir_def acme_path_def)

text \<open>The upload of \<open>acme 1.0.0\<close> into \<open>upload_store\<close>, step by step: the state after the
  copy, and after the size and the state have been written into the copy of the metadata
  at address 5.\<close>

lemma upload_store_fields:
  "mu (upload_store b) = Unlocked"
  "releases (upload_store b) = [''acme'' \<mapsto> [''1.0.0'' \<mapsto> 0]]"
  "nodes (upload_store b) = [''x.tgz'' \<mapsto> RegularFile 2048, acme_dir \<mapsto> Directory,
               acme_path \<mapsto> RegularFile 1024]"
  "deny (upload_store b) c n = (b \<and> c = SysRemove \<and> n = acme_path)"
  by (simp_all add: upload_store_def)

lemma upload_store_Store:
  "StoreReleaseFile ascii_lib ''repo'' ''x.tgz'' 5
     ((upload_store b)\<lparr>heap := (heap (upload_store b))
         (5 := (release ''acme'' ''1.0.0'' [] 0)\<lparr>ReleaseTimestamp := 7\<rparr>)\<rparr>) =
   (Return (Inr acme_path),
    (upload_store b)\<lparr>heap := (heap (upload_store b))
         (5 := (release ''acme'' ''1.0.0'' [] 0)\<lparr>ReleaseTimestamp := 7\<rparr>),
       nodes := (nodes (upload_store b))(acme_path \<mapsto> RegularFile 2048)\<rparr>)"
proof -
  let ?s0 = "(upload_store b)\<lparr>heap := (heap (upload_store b))
         (5 := (release ''acme'' ''1.0.0'' [] 0)\<lparr>ReleaseTimestamp := 7\<rparr>)\<rparr>"
  have n: "SoftwareName (heap ?s0 5) = ''acme''" "Version (heap ?s0 5) = ''1.0.0''"
    by simp_all
  have e: "EnsureReleaseDirExists ascii_lib ''repo'' ''acme'' ?s0 = (None, ?s0)"
    by (simp add: EnsureReleaseDirExists_def dir_of_acme os_Stat_def upload_store_fields acme_paths)
  have p: "getReleaseFilePath ascii_lib ''repo''
             ((release ''acme'' ''1.0.0'' [] 0)\<lparr>ReleaseTimestamp := 7\<rparr>) = Inr acme_path"
    by (rule path_of_acme) simp_all
  have c: "copyFile ?s0 ''x.tgz'' acme_path =
       (None, ?s0\<lparr>nodes := (nodes (upload_store b))(acme_path \<mapsto> RegularFile 2048)\<rparr>)"
    by (simp add: copyFile_def os_Open_def os_Create_def io_Copy_def upload_store_fields acme_paths)
  show ?thesis
    unfolding StoreReleaseFile_def n e by (simp add: p c)
qed

lemma upload_store_Stat:
  "os_Stat ((upload_store b)\<lparr>heap := (heap (upload_store b))
         (5 := (release ''acme'' ''1.0.0'' [] 0)\<lparr>ReleaseTimestamp := 7\<rparr>),
       nodes := (nodes (upload_store b))(acme_path \<mapsto> RegularFile 2048)\<rparr>) acme_path =
   Inr (RegularFile 2048)"
  by (simp add: os_Stat_def upload_store_fields)

lemma upload_store_Create:
  "CreateReleaseMetadata
     (set_ReleaseState (set_FileSize
        ((upload_store b)\<lparr>heap := (heap (upload_store b))
            (5 := (release ''acme'' ''1.0.0'' [] 0)\<lparr>ReleaseTimestamp := 7\<rparr>),
          nodes := (nodes (upload_store b))(acme_path \<mapsto> RegularFile 2048)\<rparr>) 5
        (Size ((upload_store b)\<lparr>heap := (heap (upload_store b))
            (5 := (release ''acme'' ''1.0.0'' [] 0)\<lparr>ReleaseTimestamp := 7\<rparr>),
          nodes := (nodes (upload_store b))(acme_path \<mapsto> RegularFile 2048)\<rparr>)
          (RegularFile 2048))) 5 ''available'') 5 =
   (Return (Some (AlreadyExists ''acme'' ''1.0.0'')),
    set_ReleaseState (set_FileSize
        ((upload_store b)\<lparr>heap := (heap (upload_store b))
            (5 := (release ''acme'' ''1.0.0'' [] 0)\<lparr>ReleaseTimestamp := 7\<rparr>),
          nodes := (nodes (upload_store b))(acme_path \<mapsto> RegularFile 2048)\<rparr>) 5
        (Size ((upload_store b)\<lparr>heap := (heap (upload_store b))
            (5 := (release ''acme'' ''1.0.0'' [] 0)\<lparr>ReleaseTimestamp := 7\<rparr>),
          nodes := (nodes (upload_store b))(acme_path \<mapsto> RegularFile 2048)\<rparr>)
          (RegularFile 2048))) 5 ''available'')"
  (is "CreateReleaseMetadata ?s2 5 = _")
proof -
  have m: "mu ?s2 = Unlocked" by (simp add: upload_store_fields)
  have r: "releases ?s2 (SoftwareName (heap ?s2 5)) = Some [''1.0.0'' \<mapsto> 0]"
    by (simp add: upload_store_fields)
  have v: "[''1.0.0'' \<mapsto> (0::nat)] (Version (heap ?s2 5)) = Some 0" by simp
  from Create_existing [OF m r v] show ?thesis by simp
qed

theorem upload_rollback_witness:
  "fst (UploadRelease ascii_lib ''repo'' 7 ''x.tgz'' (release ''acme'' ''1.0.0'' [] 0) 5
          (upload_store False)) =
     Return (Some (Wrap ''failed to create release metadata and rollback file storage''
                     (AlreadyExists ''acme'' ''1.0.0''))) \<and>
   nodes (snd (UploadRelease ascii_lib ''repo'' 7 ''x.tgz'' (release ''acme'' ''1.0.0'' [] 0) 5
                 (upload_store False))) acme_path = None"
  using upload_rollback [OF upload_store_Store upload_store_Stat upload_store_Create, of False]
  by (simp add: upload_store_fields)

text \<open>The claim as worded fails where the file cannot be removed. The second upload of
  \<open>acme 1.0.0\<close> returns the error of the create and nothing else, although \<open>os.Remove\<close>
  has failed and the file that the upload has placed, with its 2048 bytes, is still
  there.\<close>

theorem upload_rollback_counterexample:
  "fst (UploadRelease ascii_lib ''repo'' 7 ''x.tgz'' (release ''acme'' ''1.0.0'' [] 0) 5
          (upload_store True)) =
     Return (Some (Wrap ''failed to create release metadata and rollback file storage''
                     (AlreadyExists ''acme'' ''1.0.0''))) \<and>
   nodes (snd (UploadRelease ascii_lib ''repo'' 7 ''x.tgz'' (release ''acme'' ''1.0.0'' [] 0) 5
                 (upload_store True))) acme_path = Some (RegularFile 2048) \<and>
   fst (os_Remove (snd (UploadRelease ascii_lib ''repo'' 7 ''x.tgz''
                          (release ''acme'' ''1.0.0'' [] 0) 5 (upload_store True))) acme_path) =
     Some (PathError SysRemove acme_path ErrOther)"
  by (simp add: UploadRelease_create_failed [OF upload_store_Store upload_store_Stat
        upload_store_Create] os_Remove_def upload_store_fields)

section \<open>The latest release\<close>

lemma GreaterThan_irrefl: "\<not> GreaterThan v v"
  by (simp add: GreaterThan_def)

lemma GreaterThan_total:
  "\<not> GreaterThan v w \<Longrightarrow> \<not> GreaterThan w v \<Longrightarrow> version_key v = version_key w"
  by (auto simp: GreaterThan_def version_key_def split: if_splits)

lemma sort_less_desc:
  "sort_less s ''version'' ''desc'' = (\<lambda>i j. GreaterThan (version_of s i) (version_of s j))"
  by (simp add: sort_less_def fun_eq_iff)

lemma sort_Slice_set: "sort_Slice lt xs ys \<Longrightarrow> set ys = set xs"
  by (auto simp: sort_Slice_def dest: mset_eq_setD)

text \<open>The first element of a slice ordered by descending version: no element has a
  greater version.\<close>

lemma sort_Slice_first:
  assumes "sort_Slice (\<lambda>i j. GreaterThan (version_of s i) (version_of s j)) xs (y # ys)"
    and "b \<in> set xs"
  shows "\<not> GreaterThan (version_of s b) (version_of s y)"
proof -
  from assms(1) have "set (y # ys) = set xs" by (rule sort_Slice_set)
  with assms(2) have "b = y \<or> b \<in> set ys" by auto
  moreover from assms(1) have "\<forall>c \<in> set ys. \<not> GreaterThan (version_of s c) (version_of s y)"
    by (simp add: sort_Slice_def)
  ultimately show ?thesis using GreaterThan_irrefl by blast
qed

lemma range_values_order:
  "range_order m ks \<Longrightarrow> set (range_values m ks) = ran m"
  by (auto simp: set_range_values range_order_def ran_def)

lemma List_Unlocked:
  assumes "ListReleasesMetadataForSoftware s vs name = Return (Inr xs)"
    and "releases s name = Some inner"
  shows "xs = range_values inner vs"
  using assms
  by (cases "mu s") (simp_all add: ListReleasesMetadataForSoftware_def RLock_def)

text \<open>
  C8 (as the code has it). When \<open>ListReleasesForSoftware\<close>, asked to sort by version in
  descending order, returns a list, and \<open>GetLatestReleaseForSoftware\<close> returns a release,
  the list is not empty, and its head and the latest release have the same major, minor
  and patch numbers, the greatest among the releases of the software. They are the same
  record whenever no two releases of the software have the same three numbers; a version
  that does not parse counts as 0.0.0.
\<close>

theorem latest_is_head:
  assumes "ListReleasesForSoftware s vs name ''version'' ''desc'' (Return (Inr ordered))"
    and "GetLatestReleaseForSoftware s vs' name (Return (Inr latest))"
    and "releases s name = Some inner"
    and "range_order inner vs" and "range_order inner vs'"
  shows "ordered \<noteq> [] \<and>
         version_key (version_of s (hd ordered)) = version_key (version_of s latest) \<and>
         (\<forall>p \<in> set ordered. \<not> GreaterThan (version_of s p) (version_of s latest)) \<and>
         (inj_on (\<lambda>p. version_key (version_of s p)) (set ordered) \<longrightarrow> hd ordered = latest)"
proof -
  from assms(1) obtain xs where xs: "ListReleasesMetadataForSoftware s vs name = Return (Inr xs)"
    and sx: "sort_Slice (sort_less s ''version'' ''desc'') xs ordered"
    by (cases rule: ListReleasesForSoftware.cases) auto
  from assms(2) obtain ys rest where
    ys: "ListReleasesMetadataForSoftware s vs' name = Return (Inr ys)" and ne: "ys \<noteq> []"
    and sy: "sort_Slice (\<lambda>i j. GreaterThan (version_of s i) (version_of s j)) ys (latest # rest)"
    by (cases rule: GetLatestReleaseForSoftware.cases) auto
  have "xs = range_values inner vs" using xs assms(3) by (rule List_Unlocked)
  then have setx: "set xs = ran inner" using assms(4) by (simp add: range_values_order)
  have "ys = range_values inner vs'" using ys assms(3) by (rule List_Unlocked)
  then have sety: "set ys = ran inner" using assms(5) by (simp add: range_values_order)
  note sx' = sx [unfolded sort_less_desc]
  have sets: "set ordered = ran inner" using sort_Slice_set [OF sx'] setx by simp
  have setl: "set (latest # rest) = ran inner" using sort_Slice_set [OF sy] sety by simp
  have "ran inner \<noteq> {}" using ne sety by auto
  then have nonempty: "ordered \<noteq> []" using sets by auto
  then obtain h t where ht: "ordered = h # t" by (cases ordered) auto
  have h_in: "h \<in> ran inner" using sets ht by auto
  have l_in: "latest \<in> ran inner" using setl by auto
  have a: "\<not> GreaterThan (version_of s latest) (version_of s h)"
    using sort_Slice_first [OF sx' [unfolded ht]] l_in setx by simp
  have b: "\<not> GreaterThan (version_of s p) (version_of s latest)" if "p \<in> ran inner" for p
    using sort_Slice_first [OF sy] that sety by simp
  have key: "version_key (version_of s h) = version_key (version_of s latest)"
    using b [OF h_in] a by (rule GreaterThan_total)
  have h_set: "h \<in> set ordered" and l_set: "latest \<in> set ordered"
    using h_in l_in by (simp_all only: sets)
  have hd: "hd ordered = h" by (simp only: ht list.sel)
  show ?thesis
  proof (intro conjI ballI impI)
    show "ordered \<noteq> []" by (rule nonempty)
    show "version_key (version_of s (hd ordered)) = version_key (version_of s latest)"
      by (simp only: hd key)
    show "\<not> GreaterThan (version_of s p) (version_of s latest)" if "p \<in> set ordered" for p
    proof -
      from that have "p \<in> ran inner" by (simp only: sets)
      then show ?thesis by (rule b)
    qed
    show "hd ordered = latest"
      if "inj_on (\<lambda>p. version_key (version_of s p)) (set ordered)"
      using inj_onD [OF that key h_set l_set] by (simp only: hd)
  qed
qed

lemma pair_store_fields:
  "mu (pair_store v w) = Unlocked"
  "releases (pair_store v w) = [''a'' \<mapsto> [v \<mapsto> 0, w \<mapsto> 2]]"
  "heap (pair_store v w) 0 = release ''a'' v ''available'' 10"
  "heap (pair_store v w) 2 = release ''a'' w ''available'' 10"
  by (simp_all add: pair_store_def)

lemma pair_store_List:
  "v \<noteq> w \<Longrightarrow> ListReleasesMetadataForSoftware (pair_store v w) [v, w] ''a'' = Return (Inr [0, 2])"
  "v \<noteq> w \<Longrightarrow> ListReleasesMetadataForSoftware (pair_store v w) [w, v] ''a'' = Return (Inr [2, 0])"
  by (simp_all add: ListReleasesMetadataForSoftware_def RLock_def pair_store_fields range_values_def)

lemma parse_examples:
  "parseVersion ''1.0.0'' = Inr \<lparr>Major = 1, Minor = 0, Patch = 0, Original = ''1.0.0''\<rparr>"
  "parseVersion ''2.0.0'' = Inr \<lparr>Major = 2, Minor = 0, Patch = 0, Original = ''2.0.0''\<rparr>"
  "parseVersion ''01.0.0'' = Inr \<lparr>Major = 1, Minor = 0, Patch = 0, Original = ''01.0.0''\<rparr>"
  by (simp_all add: parseVersion_def Atoi_def is_digit_def numeral_3_eq_3)

lemma pair_store_versions:
  "version_key (version_of (pair_store ''1.0.0'' ''2.0.0'') 0) = (1, 0, 0)"
  "version_key (version_of (pair_store ''1.0.0'' ''2.0.0'') 2) = (2, 0, 0)"
  "version_key (version_of (pair_store ''1.0.0'' ''01.0.0'') 0) = (1, 0, 0)"
  "version_key (version_of (pair_store ''1.0.0'' ''01.0.0'') 2) = (1, 0, 0)"
  by (simp_all add: version_key_def version_of_def pair_store_fields parse_examples)

lemma GreaterThan_key:
  "GreaterThan v w \<longleftrightarrow>
     (case (version_key v, version_key w) of
        ((a, b, c), (a', b', c')) \<Rightarrow> a > a' \<or> (a = a' \<and> (b > b' \<or> (b = b' \<and> c > c'))))"
  by (auto simp: GreaterThan_def version_key_def)

theorem latest_is_head_witness:
  "ListReleasesForSoftware (pair_store ''1.0.0'' ''2.0.0'') [''1.0.0'', ''2.0.0''] ''a''
     ''version'' ''desc'' (Return (Inr [2, 0])) \<and>
   GetLatestReleaseForSoftware (pair_store ''1.0.0'' ''2.0.0'') [''2.0.0'', ''1.0.0''] ''a''
     (Return (Inr 2)) \<and>
   hd [2, 0] = (2::nat)"
proof -
  let ?s = "pair_store ''1.0.0'' ''2.0.0''"
  have srt: "sort_Slice (\<lambda>i j. GreaterThan (version_of ?s i) (version_of ?s j)) xs [2, 0]"
    if "mset xs = mset [0, 2::nat]" for xs
    using that by (simp add: sort_Slice_def GreaterThan_key pair_store_versions)
  have l: "ListReleasesForSoftware ?s [''1.0.0'', ''2.0.0''] ''a'' ''version'' ''desc''
             (Return (Inr [2, 0]))"
    by (rule list_sorted [where listed = "[0, 2]"])
       (simp_all add: pair_store_List sort_less_desc srt)
  have g: "GetLatestReleaseForSoftware ?s [''2.0.0'', ''1.0.0''] ''a'' (Return (Inr 2))"
    by (rule latest_first [where listed = "[2, 0]" and rest = "[0]"])
       (simp_all add: pair_store_List srt)
  have r: "releases ?s ''a'' = Some [''1.0.0'' \<mapsto> 0, ''2.0.0'' \<mapsto> 2]"
    by (simp add: pair_store_fields)
  have o: "range_order [''1.0.0'' \<mapsto> (0::nat), ''2.0.0'' \<mapsto> 2] [''1.0.0'', ''2.0.0'']"
    "range_order [''1.0.0'' \<mapsto> (0::nat), ''2.0.0'' \<mapsto> 2] [''2.0.0'', ''1.0.0'']"
    by (auto simp: range_order_def)
  have i: "inj_on (\<lambda>p. version_key (version_of ?s p)) (set [2, 0])"
    by (simp add: pair_store_versions)
  from latest_is_head [OF l g r o] i have "hd [2, 0] = (2::nat)" by blast
  with l g show ?thesis by blast
qed

text \<open>The claim as worded fails where two releases have the same numbers, as \<open>1.0.0\<close> and
  \<open>01.0.0\<close> have. Neither is greater than the other, so \<open>sort.Slice\<close> may leave them in
  the order in which the map was visited, and that order differs from one call to the
  next: the list may come back with the one release at its head while the latest release
  comes back as the other.\<close>

theorem latest_is_head_counterexample:
  "ListReleasesForSoftware (pair_store ''1.0.0'' ''01.0.0'') [''1.0.0'', ''01.0.0''] ''a''
     ''version'' ''desc'' (Return (Inr [0, 2])) \<and>
   GetLatestReleaseForSoftware (pair_store ''1.0.0'' ''01.0.0'') [''01.0.0'', ''1.0.0''] ''a''
     (Return (Inr 2)) \<and>
   hd [0, 2] \<noteq> (2::nat)"
proof -
  let ?s = "pair_store ''1.0.0'' ''01.0.0''"
  have s1: "sort_Slice (\<lambda>i j. GreaterThan (version_of ?s i) (version_of ?s j)) [0, 2] [0, 2]"
    by (simp add: sort_Slice_def GreaterThan_key pair_store_versions)
  have s2: "sort_Slice (\<lambda>i j. GreaterThan (version_of ?s i) (version_of ?s j)) [2, 0] [2, 0]"
    by (simp add: sort_Slice_def GreaterThan_key pair_store_versions)
  have l: "ListReleasesForSoftware ?s [''1.0.0'', ''01.0.0''] ''a'' ''version'' ''desc''
             (Return (Inr [0, 2]))"
    by (rule list_sorted [where listed = "[0, 2]"])
       (simp_all add: pair_store_List sort_less_desc s1)
  have g: "GetLatestReleaseForSoftware ?s [''01.0.0'', ''1.0.0''] ''a'' (Return (Inr 2))"
    by (rule latest_first [where listed = "[2, 0]" and rest = "[0]"])
       (simp_all add: pair_store_List s2)
  from l g show ?thesis by simp
qed

end
